theory Spec2Isabelle
  imports Complex_Main
begin

section \<open>Errors\<close>

text \<open>
  The program stops in two ways: by \<^verbatim>\<open>sys.exit(1)\<close> after printing a message, and by an
  uncaught Python exception. Both are values of one error type. The first four constructors
  are the \<^verbatim>\<open>sys.exit(1)\<close> exits of \<^verbatim>\<open>analyze_scaling\<close>, \<^verbatim>\<open>walk_group\<close> and
  \<^verbatim>\<open>handle_path\<close>; the others are the exceptions that indexing, \<^verbatim>\<open>float()\<close>,
  comparison with \<^verbatim>\<open>None\<close>, reading from \<^verbatim>\<open>None\<close> and division raise.
\<close>

datatype error =
    UnsupportedUnit
  | AnisotropicScaling
  | UnknownElement
  | UnsupportedPathCommand
  | KeyError
  | ValueError
  | TypeError
  | AttributeError
  | ZeroDivisionError

section \<open>Bounds\<close>

text \<open>
  A bound keeping array is the four-element list \<^verbatim>\<open>[MinX, MinY, MaxX, MaxY]\<close>, each entry a
  float or \<^verbatim>\<open>None\<close>. A float is the real number it denotes (infinities and NaN are
  left out). Comparisons of floats are comparisons of these reals.
\<close>

type_synonym bounds = "real option \<times> real option \<times> real option \<times> real option"

definition no_bounds :: bounds where
  "no_bounds = (None, None, None, None)"

text \<open>
  \<^verbatim>\<open>a < b\<close> and \<^verbatim>\<open>a > b\<close> on two entries: Python raises \<^verbatim>\<open>TypeError\<close> when one of
  them is \<^verbatim>\<open>None\<close>.
\<close>

fun py_lt :: "real option \<Rightarrow> real option \<Rightarrow> error + bool" where
  "py_lt (Some a) (Some b) = Inr (a < b)"
| "py_lt _ _ = Inl TypeError"

fun py_gt :: "real option \<Rightarrow> real option \<Rightarrow> error + bool" where
  "py_gt (Some a) (Some b) = Inr (a > b)"
| "py_gt _ _ = Inl TypeError"

text \<open>
  One statement of \<^verbatim>\<open>merge_bounds\<close>:
  \<^verbatim>\<open>if src[0] is not None and (dest[k] is None or src[k] < dest[k]): dest[k] = src[k]\<close>,
  with the comparison passed in. \<^verbatim>\<open>and\<close> and \<^verbatim>\<open>or\<close> short-circuit, so the comparison
  is evaluated only when \<^verbatim>\<open>src[0]\<close> and \<^verbatim>\<open>dest[k]\<close> are both set. The first argument is
  always \<^verbatim>\<open>src[0]\<close>, as in the source.
\<close>

definition merge_entry ::
  "(real option \<Rightarrow> real option \<Rightarrow> error + bool) \<Rightarrow> real option \<Rightarrow> real option \<Rightarrow> real option
     \<Rightarrow> error + real option" where
  "merge_entry cmp src0 destk srck =
     (if src0 \<noteq> None then
        (if destk = None then Inr srck
         else (case cmp srck destk of
                 Inl e \<Rightarrow> Inl e
               | Inr c \<Rightarrow> Inr (if c then srck else destk)))
      else Inr destk)"

fun merge_bounds :: "bounds \<Rightarrow> bounds \<Rightarrow> error + bounds" where
  "merge_bounds (d0, d1, d2, d3) (s0, s1, s2, s3) =
     (case merge_entry py_lt s0 d0 s0 of Inl e \<Rightarrow> Inl e | Inr d0' \<Rightarrow>
      case merge_entry py_lt s0 d1 s1 of Inl e \<Rightarrow> Inl e | Inr d1' \<Rightarrow>
      case merge_entry py_gt s0 d2 s2 of Inl e \<Rightarrow> Inl e | Inr d2' \<Rightarrow>
      case merge_entry py_gt s0 d3 s3 of Inl e \<Rightarrow> Inl e | Inr d3' \<Rightarrow>
      Inr (d0', d1', d2', d3'))"

text \<open>
  \<^verbatim>\<open>update_bounds\<close>: every comparison is guarded by \<^verbatim>\<open>dest[k] is None or\<close>, so it never
  raises.
\<close>

fun update_bounds :: "bounds \<Rightarrow> complex \<Rightarrow> bounds" where
  "update_bounds (d0, d1, d2, d3) point =
     ((if d0 = None \<or> Re point < the d0 then Some (Re point) else d0),
      (if d1 = None \<or> Im point < the d1 then Some (Im point) else d1),
      (if d2 = None \<or> Re point > the d2 then Some (Re point) else d2),
      (if d3 = None \<or> Im point > the d3 then Some (Im point) else d3))"

text \<open>
  The boxes the program builds are entirely unset or entirely set: \<^verbatim>\<open>update_bounds\<close> sets
  all four entries of an unset box at once.
\<close>

definition whole :: "bounds \<Rightarrow> bool" where
  "whole b = (case b of (b0, b1, b2, b3) \<Rightarrow>
     (b0 = None \<and> b1 = None \<and> b2 = None \<and> b3 = None) \<or>
     (b0 \<noteq> None \<and> b1 \<noteq> None \<and> b2 \<noteq> None \<and> b3 \<noteq> None))"

section \<open>Double precision\<close>

text \<open>
  A Python float is an IEEE double: 53 significant bits, the exponent of the leading bit no
  less than -1022. The result of \<^verbatim>\<open>float()\<close> and of a float division is the exact result
  rounded to the nearest double, ties going to the even significand. \<open>round_double\<close> is
  that rounding on the reals; a result beyond the largest double, which Python gives as
  infinity, is outside the model. The scaling analysis, where the program compares two
  quotients for equality, is modelled with this rounding. The offsets and sizes that
  \<^verbatim>\<open>main\<close> and \<^verbatim>\<open>manip_start_end\<close> compute by sums, differences and products are taken
  exactly, which is what Python computes whenever the exact result is a double.
\<close>

text \<open>The position of the leading bit of a positive integer.\<close>

function ilog2 :: "int \<Rightarrow> nat" where
  "ilog2 n = (if n < 2 then 0 else Suc (ilog2 (n div 2)))"
  by pat_completeness auto
termination ilog2
  by (relation "measure nat") auto

declare ilog2.simps [simp del]

definition two_power :: "int \<Rightarrow> real" where
  "two_power k = (if 0 \<le> k then 2 ^ nat k else 1 / 2 ^ nat (- k))"

text \<open>For \<open>a > 0\<close>, the exponent \<open>e\<close> with \<open>2\<^sup>e \<le> a < 2\<^sup>e\<^sup>+\<^sup>1\<close>.\<close>

definition binary_exponent :: "real \<Rightarrow> int" where
  "binary_exponent a =
     (if 1 \<le> a then int (ilog2 \<lfloor>a\<rfloor>)
      else (let j = ilog2 \<lfloor>1 / a\<rfloor>
            in if a * 2 ^ j = 1 then - int j else - int (Suc j)))"

definition round_half_even :: "real \<Rightarrow> int" where
  "round_half_even y =
     (let f = \<lfloor>y\<rfloor>; r = y - of_int f
      in if r < 1 / 2 then f else if 1 / 2 < r then f + 1
         else if even f then f else f + 1)"

definition round_double :: "real \<Rightarrow> real" where
  "round_double x =
     (if x = 0 then 0
      else (let a = \<bar>x\<bar>;
                e = max (binary_exponent a) (- 1022);
                q = two_power (e - 52)
            in sgn x * of_int (round_half_even (a / q)) * q))"

section \<open>Strings\<close>

text \<open>
  An attribute value is a Python string. The program reads the strings of the parsed document
  and writes strings that it formats from floats (\<^verbatim>\<open>str(x)\<close>, \<^verbatim>\<open>f'{x}mm'\<close>). A string is
  therefore a list of symbols: a character, or \<open>Fl x\<close>, the text that Python's float
  formatting produces for \<open>x\<close>. That text holds digits, a sign, a point and an exponent only,
  so no search for a letter, a space or a brace finds anything inside it, and \<^verbatim>\<open>float()\<close>
  reads it back as \<open>x\<close>.
\<close>

datatype sym = Ch char | Fl real

type_synonym pystr = "sym list"

definition lit :: "string \<Rightarrow> pystr" where
  "lit s = map Ch s"

fun chars_of :: "pystr \<Rightarrow> string option" where
  "chars_of [] = Some []"
| "chars_of (Ch c # s) = (case chars_of s of None \<Rightarrow> None | Some cs \<Rightarrow> Some (c # cs))"
| "chars_of (Fl x # s) = None"

text \<open>
  \<^verbatim>\<open>float(s)\<close>. Python's own parser of numerals is the parameter \<open>flt\<close>, from the characters
  to the value, \<open>None\<close> where Python raises \<^verbatim>\<open>ValueError\<close>. A string that mixes a formatted
  float with other symbols is never passed to \<^verbatim>\<open>float()\<close> by this program on the strings it
  wrote itself; the model raises \<^verbatim>\<open>ValueError\<close> there.
\<close>

fun py_float :: "(string \<Rightarrow> real option) \<Rightarrow> pystr \<Rightarrow> error + real" where
  "py_float flt [Fl x] = Inr x"
| "py_float flt s =
     (case chars_of s of
        None \<Rightarrow> Inl ValueError
      | Some cs \<Rightarrow> (case flt cs of None \<Rightarrow> Inl ValueError | Some x \<Rightarrow> Inr x))"

text \<open>\<^verbatim>\<open>s.endswith(suffix)\<close> for a literal suffix.\<close>

definition endswith :: "pystr \<Rightarrow> string \<Rightarrow> bool" where
  "endswith s suffix =
     (length suffix \<le> length s \<and> drop (length s - length suffix) s = lit suffix)"

text \<open>\<^verbatim>\<open>s[:s.index(c)]\<close>: \<^verbatim>\<open>index\<close> raises \<^verbatim>\<open>ValueError\<close> when \<open>c\<close> does not occur.\<close>

definition upto_index :: "pystr \<Rightarrow> char \<Rightarrow> error + pystr" where
  "upto_index s c =
     (if Ch c \<in> set s then Inr (takeWhile (\<lambda>x. x \<noteq> Ch c) s) else Inl ValueError)"

text \<open>\<^verbatim>\<open>s.split(' ')\<close>: every single space separates, so the result is never empty.\<close>

fun split_space :: "pystr \<Rightarrow> pystr list" where
  "split_space [] = [[]]"
| "split_space (x # s) =
     (if x = Ch CHR '' '' then [] # split_space s
      else (case split_space s of [] \<Rightarrow> [[x]] | w # ws \<Rightarrow> (x # w) # ws))"

text \<open>
  A numeral parser to run the model on concrete documents: digits with at most one point,
  at least one digit. \<open>decimal_value\<close> is the number the numeral denotes and
  \<open>decimal_float\<close> the double nearest to it, which is what Python's \<^verbatim>\<open>float()\<close> returns
  on these strings (\<^verbatim>\<open>float()\<close> accepts more: signs, exponents, surrounding blanks).
\<close>

definition digit_of :: "char \<Rightarrow> int option" where
  "digit_of c =
     (let code = (of_char c :: int)
      in if 48 \<le> code \<and> code \<le> 57 then Some (code - 48) else None)"

fun digits_value :: "int \<Rightarrow> string \<Rightarrow> int option" where
  "digits_value acc [] = Some acc"
| "digits_value acc (c # cs) =
     (case digit_of c of None \<Rightarrow> None | Some d \<Rightarrow> digits_value (10 * acc + d) cs)"

definition decimal_value :: "string \<Rightarrow> real option" where
  "decimal_value s =
     (let ip = takeWhile (\<lambda>c. c \<noteq> CHR ''.'') s;
          fp = drop (Suc (length ip)) s
      in if ip = [] \<and> fp = [] then None
         else (case digits_value 0 ip of
                 None \<Rightarrow> None
               | Some n \<Rightarrow>
                   (case digits_value 0 fp of
                      None \<Rightarrow> None
                    | Some m \<Rightarrow> Some (of_int n + of_int m / 10 ^ length fp))))"

definition decimal_float :: "string \<Rightarrow> real option" where
  "decimal_float s = map_option round_double (decimal_value s)"

section \<open>The document\<close>

text \<open>
  The drawing commands of the path library: every command object has a \<^verbatim>\<open>start\<close> and an
  \<^verbatim>\<open>end\<close> point (for \<^verbatim>\<open>Move\<close> both are the target), and the curves carry control data that
  the program never reads or writes.
\<close>

datatype command_type =
    Line
  | Move
  | Close
  | CubicBezier complex complex
  | QuadraticBezier complex
  | Arc complex real bool bool

datatype command = Command (ctype: command_type) (start: complex) (end': complex)

text \<open>
  An attribute value is a string, or the description of a path. \<^verbatim>\<open>parse_path\<close> and
  \<^verbatim>\<open>path.d()\<close> belong to the path library; a description is held as the command sequence
  that \<^verbatim>\<open>parse_path\<close> returns for it. The library writes the numbers of a description
  with a limited number of digits; the model stores the commands that \<^verbatim>\<open>path.d()\<close> is given,
  which are the commands a later \<^verbatim>\<open>parse_path\<close> reads when their coordinates need no more
  digits than the library writes.
\<close>

datatype attr = Str pystr | PathData "command list"

datatype element =
  Element (tag: string) (attrib: "(string \<times> attr) list") (children: "element list")

text \<open>\<^verbatim>\<open>element.attrib[key]\<close> raises \<^verbatim>\<open>KeyError\<close> for a missing key.\<close>

definition get_attrib :: "element \<Rightarrow> string \<Rightarrow> error + attr" where
  "get_attrib element key =
     (case map_of (attrib element) key of None \<Rightarrow> Inl KeyError | Some v \<Rightarrow> Inr v)"

text \<open>
  \<^verbatim>\<open>element.attrib[key] = value\<close>: a dict keeps the position of a key it already has and
  appends a new one.
\<close>

fun update_attrib :: "string \<Rightarrow> attr \<Rightarrow> (string \<times> attr) list \<Rightarrow> (string \<times> attr) list" where
  "update_attrib key v [] = [(key, v)]"
| "update_attrib key v (p # ps) =
     (if fst p = key then (key, v) # ps else p # update_attrib key v ps)"

definition set_attrib :: "element \<Rightarrow> string \<Rightarrow> attr \<Rightarrow> element" where
  "set_attrib element key v =
     Element (tag element) (update_attrib key v (attrib element)) (children element)"

text \<open>
  The string operations of \<^verbatim>\<open>resolve_dimensions\<close> and \<^verbatim>\<open>analyze_scaling\<close> on an attribute
  value. A path description written by the path library starts with a command letter and
  ends with a number or \<^verbatim>\<open>Z\<close>: it ends with neither \<^verbatim>\<open>mm\<close> nor \<^verbatim>\<open>cm\<close>, and it is not
  four numerals separated by single spaces.
\<close>

fun attr_endswith :: "attr \<Rightarrow> string \<Rightarrow> bool" where
  "attr_endswith (Str s) suffix = endswith s suffix"
| "attr_endswith (PathData cs) suffix = False"

fun attr_float :: "(string \<Rightarrow> real option) \<Rightarrow> attr \<Rightarrow> error + real" where
  "attr_float flt (Str s) = py_float flt s"
| "attr_float flt (PathData cs) = Inl ValueError"

fun attr_upto_index :: "attr \<Rightarrow> char \<Rightarrow> error + attr" where
  "attr_upto_index (Str s) c =
     (case upto_index s c of Inl e \<Rightarrow> Inl e | Inr p \<Rightarrow> Inr (Str p))"
| "attr_upto_index (PathData cs) c = Inl ValueError"

section \<open>Sequencing\<close>

text \<open>A statement that raises ends the run: the rest is not executed.\<close>

definition and_then :: "error + 'a \<Rightarrow> ('a \<Rightarrow> error + 'b) \<Rightarrow> error + 'b" where
  "and_then m f = (case m of Inl e \<Rightarrow> Inl e | Inr x \<Rightarrow> f x)"

section \<open>Configuration\<close>

definition strip_tags :: "string list" where
  "strip_tags = [''text'']"

definition ignore_tags :: "string list" where
  "ignore_tags = [''title'', ''desc'']"

section \<open>Utilities\<close>

text \<open>
  \<^verbatim>\<open>normalize_tag\<close>: \<^verbatim>\<open>tagstr[tagstr.rindex('}') + 1:]\<close>, the part after the last brace.
  \<^verbatim>\<open>rindex\<close> raises \<^verbatim>\<open>ValueError\<close> when the tag has no brace.
\<close>

definition normalize_tag :: "string \<Rightarrow> error + string" where
  "normalize_tag tagstr =
     (if CHR ''}'' \<in> set tagstr
      then Inr (rev (takeWhile (\<lambda>c. c \<noteq> CHR ''}'') (rev tagstr)))
      else Inl ValueError)"

text \<open>
  \<^verbatim>\<open>resolve_dimensions\<close>. In the centimetre branch \<^verbatim>\<open>float(...) * 10\<close> is a float product,
  rounded to a double.
\<close>

definition resolve_dimensions ::
  "(string \<Rightarrow> real option) \<Rightarrow> element \<Rightarrow> error + (real \<times> real) option" where
  "resolve_dimensions flt root_elem =
     and_then (get_attrib root_elem ''width'') (\<lambda>width.
     and_then (get_attrib root_elem ''height'') (\<lambda>height.
       if attr_endswith width ''mm'' \<and> attr_endswith height ''mm'' then
         and_then (attr_upto_index width CHR ''m'') (\<lambda>wp.
         and_then (attr_float flt wp) (\<lambda>w.
         and_then (attr_upto_index height CHR ''m'') (\<lambda>hp.
         and_then (attr_float flt hp) (\<lambda>h.
           Inr (Some (w, h))))))
       else if attr_endswith width ''cm'' \<and> attr_endswith height ''cm'' then
         and_then (attr_upto_index width CHR ''c'') (\<lambda>wp.
         and_then (attr_float flt wp) (\<lambda>w.
         and_then (attr_upto_index height CHR ''c'') (\<lambda>hp.
         and_then (attr_float flt hp) (\<lambda>h.
           Inr (Some (round_double (w * 10), round_double (h * 10)))))))
       else Inr None))"

text \<open>
  \<^verbatim>\<open>_, _, viewbox_width, viewbox_height = map(lambda x: float(x), s.split(' '))\<close>: every item
  is converted in turn, and the unpacking wants exactly four; a failed conversion and a wrong
  count are both \<^verbatim>\<open>ValueError\<close>.
\<close>

fun floats_of :: "(string \<Rightarrow> real option) \<Rightarrow> pystr list \<Rightarrow> error + real list" where
  "floats_of flt [] = Inr []"
| "floats_of flt (w # ws) =
     and_then (py_float flt w) (\<lambda>x.
     and_then (floats_of flt ws) (\<lambda>xs. Inr (x # xs)))"

fun viewbox_size :: "(string \<Rightarrow> real option) \<Rightarrow> attr \<Rightarrow> error + real \<times> real" where
  "viewbox_size flt (Str s) =
     and_then (floats_of flt (split_space s)) (\<lambda>xs.
       case xs of [a, b, viewbox_width, viewbox_height] \<Rightarrow> Inr (viewbox_width, viewbox_height)
                | _ \<Rightarrow> Inl ValueError)"
| "viewbox_size flt (PathData cs) = Inl ValueError"

text \<open>
  Float division: \<^verbatim>\<open>ZeroDivisionError\<close> on a zero divisor, the quotient rounded to a double
  otherwise.
\<close>

definition py_div :: "real \<Rightarrow> real \<Rightarrow> error + real" where
  "py_div a b = (if b = 0 then Inl ZeroDivisionError else Inr (round_double (a / b)))"

definition analyze_scaling ::
  "(string \<Rightarrow> real option) \<Rightarrow> element \<Rightarrow> error + real \<times> real \<times> real" where
  "analyze_scaling flt root_elem =
     and_then (resolve_dimensions flt root_elem) (\<lambda>dim.
       case dim of
         None \<Rightarrow> Inl UnsupportedUnit
       | Some (width, height) \<Rightarrow>
           and_then (get_attrib root_elem ''viewBox'') (\<lambda>vb.
           and_then (viewbox_size flt vb) (\<lambda>(viewbox_width, viewbox_height).
           and_then (py_div width viewbox_width) (\<lambda>result.
           and_then (py_div height viewbox_height) (\<lambda>yratio.
             if yratio \<noteq> result then Inl AnisotropicScaling
             else Inr (width, height, result))))))"

definition manip_start_end :: "command \<Rightarrow> real \<Rightarrow> real \<Rightarrow> command" where
  "manip_start_end command x_off y_off =
     Command (ctype command)
       (Complex (Re (start command) + x_off) (Im (start command) + y_off))
       (Complex (Re (end' command) + x_off) (Im (end' command) + y_off))"

text \<open>
  \<^verbatim>\<open>decide_svg_xy\<close> uses two constants of the PDF library: \<^verbatim>\<open>mm\<close>, the length of a
  millimetre in the library's unit, and \<^verbatim>\<open>A4\<close>, the page's width and height in that unit.
  They are parameters here. An unlisted position falls through every test and Python returns
  \<^verbatim>\<open>None\<close>.
\<close>

definition decide_svg_xy ::
  "real \<Rightarrow> real \<times> real \<Rightarrow> real \<Rightarrow> real \<Rightarrow> real \<Rightarrow> string \<Rightarrow> (real \<times> real) option" where
  "decide_svg_xy mm A4 width height padding position =
     (if position = ''TL'' then Some (padding * mm, padding * mm)
      else if position = ''TC'' then Some (fst A4 / 2 - width * mm / 2, padding * mm)
      else if position = ''TR'' then Some (fst A4 - width * mm - padding * mm, padding * mm)
      else if position = ''CL'' then Some (padding * mm, snd A4 / 2 - height * mm / 2)
      else if position = ''CC'' then
        Some (fst A4 / 2 - width * mm / 2, snd A4 / 2 - height * mm / 2)
      else if position = ''CR'' then
        Some (fst A4 - width * mm - padding * mm, snd A4 / 2 - height * mm / 2)
      else if position = ''BL'' then Some (padding * mm, snd A4 - height * mm - padding * mm)
      else if position = ''BC'' then
        Some (fst A4 / 2 - width * mm / 2, snd A4 - height * mm - padding * mm)
      else if position = ''BR'' then
        Some (fst A4 - width * mm - padding * mm, snd A4 - height * mm - padding * mm)
      else None)"

section \<open>Element handlers\<close>

text \<open>
  \<^verbatim>\<open>parse_path(d)\<close>: the command sequence of a description. A value that is not held as a
  description is a string the path library does not read as one.
\<close>

fun parse_path :: "attr \<Rightarrow> error + command list" where
  "parse_path (PathData cs) = Inr cs"
| "parse_path (Str s) = Inl ValueError"

text \<open>\<^verbatim>\<open>type(command) in [Line, Move, Close, CubicBezier, Arc]\<close>.\<close>

fun supported_command :: "command_type \<Rightarrow> bool" where
  "supported_command Line = True"
| "supported_command Move = True"
| "supported_command Close = True"
| "supported_command (CubicBezier c1 c2) = True"
| "supported_command (Arc radius rotation arc sweep) = True"
| "supported_command (QuadraticBezier c) = False"

text \<open>
  The loop of \<^verbatim>\<open>handle_path\<close> over the commands of the path, with the bounds collected so
  far; it returns the bounds and the commands as the loop leaves them.
\<close>

fun path_loop ::
  "bool \<Rightarrow> real \<Rightarrow> real \<Rightarrow> command list \<Rightarrow> bounds \<Rightarrow> error + bounds \<times> command list" where
  "path_loop bounds_mode x_off y_off [] bounds = Inr (bounds, [])"
| "path_loop bounds_mode x_off y_off (command # path) bounds =
     (if \<not> supported_command (ctype command) then Inl UnsupportedPathCommand
      else if \<not> bounds_mode then
        and_then (path_loop bounds_mode x_off y_off path bounds) (\<lambda>(bounds', path').
          Inr (bounds', manip_start_end command x_off y_off # path'))
      else
        and_then (path_loop bounds_mode x_off y_off path
                    (update_bounds (update_bounds bounds (start command)) (end' command)))
          (\<lambda>(bounds', path'). Inr (bounds', command # path')))"

text \<open>
  \<^verbatim>\<open>handle_path\<close> returns the bounds in bounds mode and \<^verbatim>\<open>None\<close> otherwise, where it has
  stored the new description in the element. The element is returned beside the result.
\<close>

definition handle_path ::
  "element \<Rightarrow> bool \<Rightarrow> real \<Rightarrow> real \<Rightarrow> error + bounds option \<times> element" where
  "handle_path element bounds_mode x_off y_off =
     and_then (get_attrib element ''d'') (\<lambda>d.
     and_then (parse_path d) (\<lambda>path.
     and_then (path_loop bounds_mode x_off y_off path no_bounds) (\<lambda>(bounds, path').
       if bounds_mode then Inr (Some bounds, element)
       else Inr (None, set_attrib element ''d'' (PathData path')))))"

text \<open>
  \<^verbatim>\<open>handle_circle\<close> returns the center in bounds mode and \<^verbatim>\<open>None\<close> otherwise, where it has
  stored \<^verbatim>\<open>str(float(element.attrib['cx']) + x_off)\<close> and the same for \<^verbatim>\<open>cy\<close>.
\<close>

definition handle_circle ::
  "(string \<Rightarrow> real option) \<Rightarrow> element \<Rightarrow> bool \<Rightarrow> real \<Rightarrow> real
     \<Rightarrow> error + complex option \<times> element" where
  "handle_circle flt element bounds_mode x_off y_off =
     (if bounds_mode then
        and_then (get_attrib element ''cx'') (\<lambda>cx.
        and_then (attr_float flt cx) (\<lambda>x.
        and_then (get_attrib element ''cy'') (\<lambda>cy.
        and_then (attr_float flt cy) (\<lambda>y.
          Inr (Some (Complex x y), element)))))
      else
        and_then (get_attrib element ''cx'') (\<lambda>cx.
        and_then (attr_float flt cx) (\<lambda>x.
          let element1 = set_attrib element ''cx'' (Str [Fl (x + x_off)]) in
          and_then (get_attrib element1 ''cy'') (\<lambda>cy.
          and_then (attr_float flt cy) (\<lambda>y.
            Inr (None, set_attrib element1 ''cy'' (Str [Fl (y + y_off)])))))))"

section \<open>The walker\<close>

text \<open>
  \<^verbatim>\<open>group.remove(element)\<close> for the element the loop is at: elements are compared by
  identity, every element of a parsed tree occurs once, so the entry at the loop's position
  is the one that goes.
\<close>

definition remove_at :: "nat \<Rightarrow> 'a list \<Rightarrow> 'a list" where
  "remove_at i xs = take i xs @ drop (Suc i) xs"

lemma and_then_cong [fundef_cong]:
  "m = m' \<Longrightarrow> (\<And>x. m' = Inr x \<Longrightarrow> f x = f' x) \<Longrightarrow> and_then m f = and_then m' f'"
  by (cases m') (simp_all add: and_then_def)

text \<open>
  \<^verbatim>\<open>walk_group\<close>. The loop \<^verbatim>\<open>for element in group\<close> asks the group for its child number
  0, 1, 2, ... until there is none, and the body changes the group meanwhile: \<open>walk_loop\<close>
  is the loop at position \<open>i\<close> over the children as they are now, with the bounds collected
  so far. A handler that changed its element has changed the child at that position. The
  result is the bounds and the group as the walk leaves it.
\<close>

function walk_group ::
    "(string \<Rightarrow> real option) \<Rightarrow> element \<Rightarrow> bool \<Rightarrow> real \<Rightarrow> real \<Rightarrow> error + bounds \<times> element"
  and walk_loop ::
    "(string \<Rightarrow> real option) \<Rightarrow> bool \<Rightarrow> real \<Rightarrow> real \<Rightarrow> nat \<Rightarrow> element list \<Rightarrow> bounds
       \<Rightarrow> error + bounds \<times> element list" where
  "walk_group flt (Element t a cs) bounds_mode x_off y_off =
     and_then (walk_loop flt bounds_mode x_off y_off 0 cs no_bounds) (\<lambda>(bounds, cs').
       Inr (bounds, Element t a cs'))"
| "walk_loop flt bounds_mode x_off y_off i cs bounds =
     (if length cs \<le> i then Inr (bounds, cs)
      else
        let element = cs ! i in
        if tag element \<in> set ignore_tags then
          walk_loop flt bounds_mode x_off y_off (Suc i) cs bounds
        else if tag element \<in> set strip_tags then
          walk_loop flt bounds_mode x_off y_off (Suc i) (remove_at i cs) bounds
        else if tag element = ''g'' then
          and_then (walk_group flt element bounds_mode x_off y_off) (\<lambda>(group_bounds, element').
          and_then (if bounds_mode then merge_bounds bounds group_bounds else Inr bounds)
            (\<lambda>bounds'.
          walk_loop flt bounds_mode x_off y_off (Suc i) (cs[i := element']) bounds'))
        else if tag element = ''path'' then
          and_then (handle_path element bounds_mode x_off y_off) (\<lambda>(path_bounds, element').
          and_then (if bounds_mode
                    then (case path_bounds of
                            None \<Rightarrow> Inl TypeError
                          | Some pb \<Rightarrow> merge_bounds bounds pb)
                    else Inr bounds)
            (\<lambda>bounds'.
          walk_loop flt bounds_mode x_off y_off (Suc i) (cs[i := element']) bounds'))
        else if tag element = ''circle'' then
          and_then (handle_circle flt element bounds_mode x_off y_off) (\<lambda>(pos, element').
          and_then (if bounds_mode
                    then (case pos of
                            None \<Rightarrow> Inl AttributeError
                          | Some point \<Rightarrow> Inr (update_bounds bounds point))
                    else Inr bounds)
            (\<lambda>bounds'.
          walk_loop flt bounds_mode x_off y_off (Suc i) (cs[i := element']) bounds'))
        else Inl UnknownElement)"
  by pat_completeness auto


lemma size_nth_drop:
  "i < length cs \<Longrightarrow> size (cs ! i) < size_list size (drop i (cs :: element list))"
  by (simp flip: Cons_nth_drop_Suc)

lemma size_drop_Suc:
  "i < length cs \<Longrightarrow>
     size_list size (drop (Suc i) cs) < size_list size (drop i (cs :: element list))"
  by (simp flip: Cons_nth_drop_Suc [of i cs])

lemma size_drop_Suc_le:
  "size_list size (drop (Suc i) cs) \<le> size_list size (drop i (cs :: element list))"
proof (cases "i < length cs")
  case True
  then show ?thesis using size_drop_Suc [of i cs] by simp
next
  case False
  then show ?thesis by simp
qed

lemma size_drop_remove_at:
  assumes "i < length cs"
  shows "size_list size (drop (Suc i) (remove_at i cs))
           < size_list size (drop i (cs :: element list))"
proof -
  have "drop (Suc i) (remove_at i cs) = drop (Suc (Suc i)) cs"
    by (simp add: remove_at_def drop_Suc min_def drop_tl)
  then show ?thesis
    using size_drop_Suc_le [of "Suc i" cs] size_drop_Suc [OF assms] by simp
qed

termination walk_group
  apply (relation "measure (\<lambda>x. case x of
             Inl (flt, grp, bounds_mode, x_off, y_off) \<Rightarrow> size grp
           | Inr (flt, bounds_mode, x_off, y_off, i, cs, bounds) \<Rightarrow> size_list size (drop i cs))")
  apply (simp_all add: size_nth_drop size_drop_Suc size_drop_remove_at)
  done

section \<open>Entry point\<close>

text \<open>The parsed command line: the options of \<^verbatim>\<open>main\<close> that the layout uses.\<close>

record args =
  position :: string
  rect_width :: int
  rect_distance :: real
  rect_color :: string
  page_padding :: real

text \<open>
  \<^verbatim>\<open>for elem in root.iter(): elem.tag = normalize_tag(elem.tag)\<close>: the root and every
  descendant, in document order.
\<close>

fun normalize_tags :: "element \<Rightarrow> error + element"
  and normalize_children :: "element list \<Rightarrow> error + element list" where
  "normalize_tags (Element t a cs) =
     and_then (normalize_tag t) (\<lambda>t'.
     and_then (normalize_children cs) (\<lambda>cs'. Inr (Element t' a cs')))"
| "normalize_children [] = Inr []"
| "normalize_children (c # cs) =
     and_then (normalize_tags c) (\<lambda>c'.
     and_then (normalize_children cs) (\<lambda>cs'. Inr (c' # cs')))"

text \<open>
  The first loop of \<^verbatim>\<open>main\<close> over the children of the root: only a child with tag
  \<^verbatim>\<open>g\<close> is walked, in bounds mode with the default offsets. The root loses no child here,
  so the loop is a recursion over its children; a walked child is left as the walk left it.
\<close>

fun measure_loop ::
  "(string \<Rightarrow> real option) \<Rightarrow> element list \<Rightarrow> bounds \<Rightarrow> error + bounds \<times> element list" where
  "measure_loop flt [] global_bounds = Inr (global_bounds, [])"
| "measure_loop flt (child # rest) global_bounds =
     (if tag child = ''g'' then
        and_then (walk_group flt child True 0 0) (\<lambda>(group_bounds, child').
        and_then (merge_bounds global_bounds group_bounds) (\<lambda>global_bounds'.
        and_then (measure_loop flt rest global_bounds') (\<lambda>(global_bounds'', rest').
          Inr (global_bounds'', child' # rest'))))
      else
        and_then (measure_loop flt rest global_bounds) (\<lambda>(global_bounds', rest').
          Inr (global_bounds', child # rest')))"

text \<open>The second loop: every child with tag \<^verbatim>\<open>g\<close> is walked with the offsets.\<close>

fun transform_loop ::
  "(string \<Rightarrow> real option) \<Rightarrow> real \<Rightarrow> real \<Rightarrow> element list \<Rightarrow> error + element list" where
  "transform_loop flt x_off y_off [] = Inr []"
| "transform_loop flt x_off y_off (child # rest) =
     (if tag child \<noteq> ''g'' then
        and_then (transform_loop flt x_off y_off rest) (\<lambda>rest'. Inr (child # rest'))
      else
        and_then (walk_group flt child False x_off y_off) (\<lambda>(unused, child').
        and_then (transform_loop flt x_off y_off rest) (\<lambda>rest'. Inr (child' # rest'))))"

text \<open>Arithmetic on an entry of the bounds: \<^verbatim>\<open>None\<close> raises \<^verbatim>\<open>TypeError\<close>.\<close>

definition entry :: "real option \<Rightarrow> error + real" where
  "entry v = (case v of None \<Rightarrow> Inl TypeError | Some x \<Rightarrow> Inr x)"

text \<open>
  What \<^verbatim>\<open>main\<close> has computed when it writes the tree: the tree, the two offsets, the size of
  the content with its frame in user units and in millimetres, and the frame's width in user
  units.
\<close>

record layout =
  out_tree :: element
  out_x_off :: real
  out_y_off :: real
  out_uuwidth :: real
  out_uuheight :: real
  out_mmwidth :: real
  out_mmheight :: real
  out_rect_width_uu :: real

text \<open>
  \<^verbatim>\<open>main\<close> from the parsed tree to the tree it writes (the command line, the check of the
  input path, the files and the PDF are outside the model). \<^verbatim>\<open>1 / mm_per_uu\<close> is evaluated
  for the offsets first and raises \<^verbatim>\<open>ZeroDivisionError\<close> there when the scale is zero.
\<close>

definition main :: "(string \<Rightarrow> real option) \<Rightarrow> args \<Rightarrow> element \<Rightarrow> error + layout" where
  "main flt a parsed =
     (let rect_width_mm = real_of_int (rect_width a);
          rect_padding_mm = (if rect_width a = 0 then 0 else rect_distance a)
      in
      and_then (normalize_tags parsed) (\<lambda>root0.
      and_then (measure_loop flt (children root0) no_bounds) (\<lambda>(global_bounds, cs1).
      let root1 = Element (tag root0) (attrib root0) cs1 in
      and_then (analyze_scaling flt root1) (\<lambda>scaling_info.
      let mm_per_uu = snd (snd scaling_info) in
      case global_bounds of (g0, g1, g2, g3) \<Rightarrow>
      and_then (entry g0) (\<lambda>b0.
      and_then (py_div 1 mm_per_uu) (\<lambda>uu_per_mm.
      let x_off = - b0 + uu_per_mm * (rect_width_mm + rect_padding_mm) in
      and_then (entry g1) (\<lambda>b1.
      let y_off = - b1 + uu_per_mm * (rect_width_mm + rect_padding_mm) in
      and_then (transform_loop flt x_off y_off cs1) (\<lambda>cs2.
      and_then (entry g2) (\<lambda>b2.
      and_then (entry g3) (\<lambda>b3.
      let uuwidth = (b2 - b0) + uu_per_mm * (rect_padding_mm * 2 + rect_width_mm * 2);
          uuheight = (b3 - b1) + uu_per_mm * (rect_padding_mm * 2 + rect_width_mm * 2);
          mmwidth = mm_per_uu * uuwidth;
          mmheight = mm_per_uu * uuheight;
          attrib1 = update_attrib ''width'' (Str (Fl mmwidth # lit ''mm'')) (attrib root0);
          attrib2 = update_attrib ''height'' (Str (Fl mmheight # lit ''mm'')) attrib1;
          attrib3 = update_attrib ''viewBox''
                      (Str (lit ''0 0 '' @ [Fl uuwidth] @ lit '' '' @ [Fl uuheight])) attrib2;
          rect_width_uu = rect_width_mm * uu_per_mm;
          rect_elem = Element ''rect''
            [(''x'', Str [Fl (rect_width_uu / 2)]),
             (''y'', Str [Fl (rect_width_uu / 2)]),
             (''width'', Str [Fl (uuwidth - rect_width_uu)]),
             (''height'', Str [Fl (uuheight - rect_width_uu)]),
             (''stroke'', Str (lit (rect_color a))),
             (''stroke-width'', Str [Fl rect_width_uu]),
             (''fill'', Str (lit ''none''))] [];
          rect_container = Element ''g'' [] [rect_elem]
      in Inr \<lparr> out_tree = Element (tag root0) attrib3 (cs2 @ [rect_container]),
               out_x_off = x_off, out_y_off = y_off,
               out_uuwidth = uuwidth, out_uuheight = uuheight,
               out_mmwidth = mmwidth, out_mmheight = mmheight,
               out_rect_width_uu = rect_width_uu \<rparr>))))))))))"


section \<open>Notions used in the properties\<close>

text \<open>The start and end points of the commands of a path, in the order the loop visits them.\<close>

definition endpoints :: "command list \<Rightarrow> complex list" where
  "endpoints path = concat (map (\<lambda>command. [start command, end' command]) path)"

text \<open>
  The path \<^verbatim>\<open>M 0,0 L 10,0 L 10,10 Z\<close> as the path library holds it: the closing command
  runs from the current point back to the start of the subpath.
\<close>

definition corner_path :: "command list" where
  "corner_path =
     [Command Move (Complex 0 0) (Complex 0 0),
      Command Line (Complex 0 0) (Complex 10 0),
      Command Line (Complex 10 0) (Complex 10 10),
      Command Close (Complex 10 10) (Complex 0 0)]"

text \<open>A path with a curve whose control points lie far outside its endpoints.\<close>

definition curve_path :: "command list" where
  "curve_path =
     [Command Move (Complex 1 2) (Complex 1 2),
      Command (CubicBezier (Complex 50 60) (Complex (- 70) 80)) (Complex 1 2) (Complex 3 1)]"

definition path_element :: "command list \<Rightarrow> element" where
  "path_element path = Element ''path'' [(''d'', PathData path)] []"

text \<open>A circle element with the given attribute texts for its center and radius.\<close>

definition circle_element :: "string \<Rightarrow> string \<Rightarrow> string \<Rightarrow> element" where
  "circle_element cx cy r =
     Element ''circle''
       [(''cx'', Str (lit cx)), (''cy'', Str (lit cy)), (''r'', Str (lit r))] []"

text \<open>
  A parsed document: the root with its size attributes and children. Tags carry a namespace
  in braces, as the markup library delivers them.
\<close>

definition svg_root :: "string \<Rightarrow> string \<Rightarrow> string \<Rightarrow> element list \<Rightarrow> element" where
  "svg_root width height viewBox cs =
     Element ''{svg}svg''
       [(''width'', Str (lit width)), (''height'', Str (lit height)),
        (''viewBox'', Str (lit viewBox))] cs"

text \<open>
  The group that \<^verbatim>\<open>main\<close> appends, with the frame at \<open>(x, y)\<close> of size \<open>w\<close> by \<open>h\<close>, and
  the attributes of the root after \<^verbatim>\<open>main\<close> has stored the new size.
\<close>

definition border_rect :: "real \<Rightarrow> real \<Rightarrow> real \<Rightarrow> real \<Rightarrow> real \<Rightarrow> string \<Rightarrow> element" where
  "border_rect x y w h stroke_width color =
     Element ''g'' []
       [Element ''rect''
          [(''x'', Str [Fl x]), (''y'', Str [Fl y]),
           (''width'', Str [Fl w]), (''height'', Str [Fl h]),
           (''stroke'', Str (lit color)),
           (''stroke-width'', Str [Fl stroke_width]),
           (''fill'', Str (lit ''none''))] []]"

definition canvas_attrib ::
  "real \<Rightarrow> real \<Rightarrow> real \<Rightarrow> real \<Rightarrow> (string \<times> attr) list \<Rightarrow> (string \<times> attr) list" where
  "canvas_attrib mmwidth mmheight uuwidth uuheight ps =
     update_attrib ''viewBox'' (Str (lit ''0 0 '' @ [Fl uuwidth] @ lit '' '' @ [Fl uuheight]))
       (update_attrib ''height'' (Str (Fl mmheight # lit ''mm''))
          (update_attrib ''width'' (Str (Fl mmwidth # lit ''mm'')) ps))"


definition default_args :: args where
  "default_args =
     \<lparr> position = ''TL'', rect_width = 5, rect_distance = 1.5,
       rect_color = ''#000000'', page_padding = 10 \<rparr>"

text \<open>
  The placement rule in the words of the specification: along one axis, the leading anchor
  (left, top) aligns to the padding, the centered one to half the page minus half the content,
  the trailing one (right, bottom) to the page minus the content minus the padding. An anchor
  is named by the letter of its row and the letter of its column.
\<close>

datatype alignment = Leading | Centered | Trailing

definition align_axis :: "alignment \<Rightarrow> real \<Rightarrow> real \<Rightarrow> real \<Rightarrow> real" where
  "align_axis al pageExtent contentExtent padding =
     (case al of
        Leading \<Rightarrow> padding
      | Centered \<Rightarrow> pageExtent / 2 - contentExtent / 2
      | Trailing \<Rightarrow> pageExtent - contentExtent - padding)"

definition anchor_name :: "alignment \<Rightarrow> alignment \<Rightarrow> string" where
  "anchor_name row col =
     [case row of Leading \<Rightarrow> CHR ''T'' | Centered \<Rightarrow> CHR ''C'' | Trailing \<Rightarrow> CHR ''B'',
      case col of Leading \<Rightarrow> CHR ''L'' | Centered \<Rightarrow> CHR ''C'' | Trailing \<Rightarrow> CHR ''R'']"

text \<open>The list \<^verbatim>\<open>positions\<close> of \<^verbatim>\<open>main\<close>, the choices of the position option.\<close>

definition positions :: "string list" where
  "positions = [''TL'', ''TC'', ''TR'', ''CL'', ''CC'', ''CR'', ''BL'', ''BC'', ''BR'']"

text \<open>
  A document whose content measures as the box (0, 0, 100, 50) at one millimetre per user
  unit: a single group with a line from (0, 0) to (100, 50).
\<close>

definition diagonal_path :: "command list" where
  "diagonal_path =
     [Command Move (Complex 0 0) (Complex 0 0),
      Command Line (Complex 0 0) (Complex 100 50)]"


text \<open>The tags the loop of \<^verbatim>\<open>walk_group\<close> has a branch for.\<close>

definition known_tags :: "string list" where
  "known_tags = ignore_tags @ strip_tags @ [''g'', ''path'', ''circle'']"

text \<open>
  The three branches of the loop that call a handler, up to the \<^verbatim>\<open>continue\<close>: what the
  handler of a group, a path or a circle leaves of the bounds and of the element.
\<close>

definition handle_child ::
  "(string \<Rightarrow> real option) \<Rightarrow> bool \<Rightarrow> real \<Rightarrow> real \<Rightarrow> element \<Rightarrow> bounds
     \<Rightarrow> error + bounds \<times> element" where
  "handle_child flt bm xo yo element bounds =
     (if tag element = ''g'' then
        and_then (walk_group flt element bm xo yo) (\<lambda>(group_bounds, element').
        and_then (if bm then merge_bounds bounds group_bounds else Inr bounds) (\<lambda>bounds'.
          Inr (bounds', element')))
      else if tag element = ''path'' then
        and_then (handle_path element bm xo yo) (\<lambda>(path_bounds, element').
        and_then (if bm
                  then (case path_bounds of None \<Rightarrow> Inl TypeError
                        | Some pb \<Rightarrow> merge_bounds bounds pb)
                  else Inr bounds) (\<lambda>bounds'.
          Inr (bounds', element')))
      else
        and_then (handle_circle flt element bm xo yo) (\<lambda>(pos, element').
        and_then (if bm
                  then (case pos of None \<Rightarrow> Inl AttributeError
                        | Some point \<Rightarrow> Inr (update_bounds bounds point))
                  else Inr bounds) (\<lambda>bounds'.
          Inr (bounds', element'))))"

text \<open>
  The document of \<open>diagonal_doc\<close> with one more child of the root, of a tag the walker has
  no branch for.
\<close>

definition stray_doc :: element where
  "stray_doc =
     svg_root ''200mm'' ''100mm'' ''0 0 200 100''
       [Element ''{svg}g'' [] [Element ''{svg}path'' [(''d'', PathData diagonal_path)] []],
        Element ''{svg}rect'' [] []]"

text \<open>
  A document with such an element inside a group, after a title and a circle; the root
  has another child before the group.
\<close>

definition nested_doc :: element where
  "nested_doc =
     svg_root ''200mm'' ''100mm'' ''0 0 200 100''
       [Element ''{svg}defs'' [] [],
        Element ''{svg}g'' []
          [Element ''{svg}title'' [] [],
           Element ''{svg}circle'' [(''cx'', Str (lit ''7'')), (''cy'', Str (lit ''3''))] [],
           Element ''{svg}rect'' [] []]]"

text \<open>A box moved by an offset; an unset entry stays unset.\<close>

definition shift_bounds :: "real \<Rightarrow> real \<Rightarrow> bounds \<Rightarrow> bounds" where
  "shift_bounds dx dy b =
     (case b of (b0, b1, b2, b3) \<Rightarrow>
        (map_option (\<lambda>v. v + dx) b0, map_option (\<lambda>v. v + dy) b1,
         map_option (\<lambda>v. v + dx) b2, map_option (\<lambda>v. v + dy) b3))"

text \<open>A group with a text in front of two paths, and the second path moved by (1, 2).\<close>

definition text_group :: element where
  "text_group =
     Element ''g'' []
       [Element ''text'' [] [], path_element diagonal_path, path_element corner_path]"

definition corner_path_moved :: "command list" where
  "corner_path_moved =
     [Command Move (Complex 1 2) (Complex 1 2),
      Command Line (Complex 1 2) (Complex 11 2),
      Command Line (Complex 11 2) (Complex 11 12),
      Command Close (Complex 11 12) (Complex 1 2)]"

text \<open>
  An element none of whose descendants has a tag of the strip set, and a command moved by an
  offset as \<^verbatim>\<open>manip_start_end\<close> moves it.
\<close>

fun strip_free :: "element \<Rightarrow> bool" where
  "strip_free (Element t a cs) = (\<forall>c \<in> set cs. tag c \<notin> set strip_tags \<and> strip_free c)"

definition shift_command :: "real \<Rightarrow> real \<Rightarrow> command \<Rightarrow> command" where
  "shift_command dx dy c = manip_start_end c dx dy"

text \<open>
  The round trip of one group: if it measures as a box, measuring has not changed it, the
  walk with the offsets \<open>(dx, dy)\<close> succeeds and leaves a group that measures as the box
  moved by the offsets.
\<close>

definition round_trip :: "(string \<Rightarrow> real option) \<Rightarrow> real \<Rightarrow> real \<Rightarrow> element \<Rightarrow> bool" where
  "round_trip flt dx dy g \<longleftrightarrow>
     (\<forall>box g1 xo yo. walk_group flt g True xo yo = Inr (box, g1) \<longrightarrow>
        g1 = g \<and>
        (\<exists>g'. walk_group flt g False dx dy = Inr (no_bounds, g') \<and> tag g' = tag g
              \<and> strip_free g'
              \<and> walk_group flt g' True xo yo = Inr (shift_bounds dx dy box, g')))"

section \<open>Sequencing lemmas\<close>

lemma and_then_Inr [simp]: "and_then (Inr x) f = f x"
  by (simp add: and_then_def)

lemma and_then_Inl [simp]: "and_then (Inl e) f = Inl e"
  by (simp add: and_then_def)

lemma and_then_assoc:
  "and_then (and_then m f) g = and_then m (\<lambda>x. and_then (f x) g)"
  by (cases m) simp_all

lemma and_then_InrE:
  assumes "and_then m f = Inr r"
  obtains x where "m = Inr x" and "f x = Inr r"
  using assms by (cases m) simp_all

section \<open>Merging bounds\<close>

text \<open>A source whose first entry is unset changes nothing, whatever its other entries.\<close>

lemma merge_bounds_src0_unset: "merge_bounds dest (None, s1, s2, s3) = Inr dest"
  by (cases dest) (simp add: merge_entry_def)

text \<open>
  Claim C1. The claim: each of the four entries of the destination is updated from the same
  entry of the source, so a source with min-X unset and min-Y, max-X, max-Y set still has those
  three merged. The code tests \<^verbatim>\<open>src[0] is not None\<close> in all four statements: merging the
  source \<^verbatim>\<open>[None, 1, 2, 3]\<close> into the empty box leaves the box empty, where the claim wants
  \<^verbatim>\<open>[None, 1, 2, 3]\<close>.
\<close>

theorem C1_merge_bounds_gated_on_min_x:
  "merge_bounds (None, None, None, None) (None, Some 1, Some 2, Some 3)
     = Inr (None, None, None, None)"
  by (simp add: merge_entry_def)

lemma merge_bounds_unset_source: "merge_bounds dest no_bounds = Inr dest"
  by (simp add: no_bounds_def merge_bounds_src0_unset)

lemma merge_bounds_set:
  "merge_bounds (Some a0, Some a1, Some a2, Some a3) (Some b0, Some b1, Some b2, Some b3)
     = Inr (Some (min a0 b0), Some (min a1 b1), Some (max a2 b2), Some (max a3 b3))"
  by (simp add: merge_entry_def min_def max_def)

lemma merge_bounds_into_unset:
  "merge_bounds no_bounds (Some b0, b1, b2, b3) = Inr (Some b0, b1, b2, b3)"
  by (simp add: merge_entry_def no_bounds_def)

lemma whole_iff:
  "whole b \<longleftrightarrow> b = no_bounds \<or> (\<exists>b0 b1 b2 b3. b = (Some b0, Some b1, Some b2, Some b3))"
  by (cases b) (auto simp: whole_def no_bounds_def)

lemmas merge_whole_simps =
  merge_bounds_unset_source merge_bounds_into_unset merge_bounds_set

text \<open>
  On boxes that are entirely unset or entirely set, merging is commutative and associative:
  it is the minimum of the lower corners and the maximum of the upper ones.
\<close>

lemma merge_bounds_commute_whole:
  assumes "whole a" and "whole b"
  shows "merge_bounds a b = merge_bounds b a"
  using assms unfolding whole_iff
  by (auto simp del: merge_bounds.simps simp add: merge_whole_simps min.commute max.commute)

lemma merge_bounds_assoc_whole:
  assumes "whole a" and "whole b" and "whole c"
  shows "and_then (merge_bounds a b) (\<lambda>ab. merge_bounds ab c)
           = and_then (merge_bounds b c) (\<lambda>bc. merge_bounds a bc)"
  using assms unfolding whole_iff
  by (auto simp del: merge_bounds.simps
           simp add: and_then_def merge_whole_simps min.assoc max.assoc)

lemma update_bounds_whole: "whole b \<Longrightarrow> whole (update_bounds b p)"
  by (cases b) (auto simp: whole_def)

text \<open>
  Claim C5. The claim: merging is commutative and associative over boxes, and merging a fully
  unset source changes nothing. The last part holds (\<open>merge_bounds_unset_source\<close>). The
  first fails on a box with min-X unset and the other entries set, because every statement of
  \<^verbatim>\<open>merge_bounds\<close> tests \<^verbatim>\<open>src[0]\<close>: merging \<^verbatim>\<open>[0, 0, 0, 0]\<close> into
  \<^verbatim>\<open>[None, 1, 2, 3]\<close> gives \<^verbatim>\<open>[0, 0, 2, 3]\<close>, and merging \<^verbatim>\<open>[None, 1, 2, 3]\<close> into
  \<^verbatim>\<open>[0, 0, 0, 0]\<close> gives \<^verbatim>\<open>[0, 0, 0, 0]\<close>.
\<close>

theorem C5_merge_bounds_order_matters:
  "merge_bounds (None, Some 1, Some 2, Some 3) (Some 0, Some 0, Some 0, Some 0)
     = Inr (Some 0, Some 0, Some 2, Some 3)
   \<and> merge_bounds (Some 0, Some 0, Some 0, Some 0) (None, Some 1, Some 2, Some 3)
     = Inr (Some 0, Some 0, Some 0, Some 0)"
  by (simp add: merge_entry_def)

section \<open>The path handler in bounds mode\<close>

lemma path_loop_measure:
  "list_all (\<lambda>c. supported_command (ctype c)) path \<Longrightarrow>
     path_loop True x_off y_off path bounds
       = Inr (foldl update_bounds bounds (endpoints path), path)"
  by (induction path arbitrary: bounds) (simp_all add: endpoints_def and_then_def)

text \<open>
  Claim C6. In bounds mode the path handler returns the fold of \<^verbatim>\<open>update_bounds\<close> over the
  start and end point of every command, in order, starting from the unset box. The result is
  a function of the endpoints alone, so the control data of a curve or an arc has no part in
  it. For the path Move(0,0), Line to (10,0), Line to (10,10), Close the box is (0,0,10,10).
  The path must hold supported commands only; the handler stops the run otherwise.
\<close>

theorem C6_handle_path_measures_endpoints:
  assumes "get_attrib element ''d'' = Inr (PathData path)"
    and "list_all (\<lambda>c. supported_command (ctype c)) path"
  shows "handle_path element True x_off y_off
           = Inr (Some (foldl update_bounds no_bounds (endpoints path)), element)
         \<and> handle_path (path_element corner_path) True x_off y_off
           = Inr (Some (Some 0, Some 0, Some 10, Some 10), path_element corner_path)"
proof
  show "handle_path element True x_off y_off
           = Inr (Some (foldl update_bounds no_bounds (endpoints path)), element)"
    using assms by (simp add: handle_path_def and_then_def path_loop_measure)
next
  show "handle_path (path_element corner_path) True x_off y_off
           = Inr (Some (Some 0, Some 0, Some 10, Some 10), path_element corner_path)"
    by (simp add: handle_path_def and_then_def get_attrib_def no_bounds_def
          path_element_def corner_path_def)
qed

theorem C6_handle_path_measures_endpoints_witness:
  "get_attrib (path_element curve_path) ''d'' = Inr (PathData curve_path)
   \<and> list_all (\<lambda>c. supported_command (ctype c)) curve_path
   \<and> handle_path (path_element curve_path) True 0 0
       = Inr (Some (Some 1, Some 1, Some 3, Some 2), path_element curve_path)"
proof -
  have d: "get_attrib (path_element curve_path) ''d'' = Inr (PathData curve_path)"
    by (simp add: get_attrib_def path_element_def)
  have s: "list_all (\<lambda>c. supported_command (ctype c)) curve_path"
    by (simp add: curve_path_def)
  have "foldl update_bounds no_bounds (endpoints curve_path)
          = (Some 1, Some 1, Some 3, Some 2)"
    by (simp add: endpoints_def curve_path_def no_bounds_def)
  with C6_handle_path_measures_endpoints [OF d s, of 0 0] d s show ?thesis
    by simp
qed

section \<open>Circles in bounds mode\<close>

declare walk_loop.simps [simp del]

lemma map_of_update_attrib:
  "map_of (update_attrib key v ps) k = (if k = key then Some v else map_of ps k)"
  by (induction ps) auto

lemma merge_bounds_point:
  "merge_bounds bounds (Some x, Some y, Some x, Some y)
     = Inr (update_bounds bounds (Complex x y))"
  by (cases bounds) (auto simp add: merge_entry_def)

lemma handle_circle_measure:
  assumes "get_attrib circle ''cx'' = Inr ax" and "attr_float flt ax = Inr cx"
    and "get_attrib circle ''cy'' = Inr ay" and "attr_float flt ay = Inr cy"
  shows "handle_circle flt circle True x_off y_off = Inr (Some (Complex cx cy), circle)"
  using assms by (simp add: handle_circle_def and_then_def)

lemma walk_loop_circle:
  assumes "i < length cs" and "tag (cs ! i) = ''circle''"
    and "handle_circle flt (cs ! i) True x_off y_off = Inr (Some point, cs ! i)"
  shows "walk_loop flt True x_off y_off i cs bounds
           = walk_loop flt True x_off y_off (Suc i) cs (update_bounds bounds point)"
  using assms
  by (subst walk_loop.simps) (simp add: Let_def ignore_tags_def strip_tags_def and_then_def)

text \<open>
  Claim C7. A circle whose \<^verbatim>\<open>cx\<close> and \<^verbatim>\<open>cy\<close> attributes read as \<open>cx\<close> and \<open>cy\<close>, with any
  value \<open>r\<close> stored as its radius: where the bounds-mode loop meets it, the loop goes on with
  the bounds updated by the point \<open>(cx, cy)\<close>, which is the merge of the degenerate box
  \<open>(cx, cy, cx, cy)\<close> into them; a group holding only the circle measures as that box.
\<close>

theorem C7_circle_contributes_center:
  assumes "map_of attrs ''cx'' = Some ax" and "attr_float flt ax = Inr cx"
    and "map_of attrs ''cy'' = Some ay" and "attr_float flt ay = Inr cy"
    and "circle = Element ''circle'' (update_attrib ''r'' r attrs) kids"
    and "i < length cs" and "cs ! i = circle"
  shows "walk_loop flt True x_off y_off i cs bounds
           = walk_loop flt True x_off y_off (Suc i) cs (update_bounds bounds (Complex cx cy))
         \<and> merge_bounds bounds (Some cx, Some cy, Some cx, Some cy)
           = Inr (update_bounds bounds (Complex cx cy))
         \<and> walk_group flt (Element ''g'' ga [circle]) True x_off y_off
           = Inr ((Some cx, Some cy, Some cx, Some cy), Element ''g'' ga [circle])"
proof -
  have h: "handle_circle flt circle True x_off y_off = Inr (Some (Complex cx cy), circle)"
    using assms(1-5)
    by (intro handle_circle_measure [where ax = ax and ay = ay])
       (simp_all add: get_attrib_def map_of_update_attrib)
  have t: "tag circle = ''circle''"
    using assms(5) by simp
  have step: "walk_loop flt True x_off y_off i cs bounds
           = walk_loop flt True x_off y_off (Suc i) cs (update_bounds bounds (Complex cx cy))"
    using walk_loop_circle [of i cs flt x_off y_off "Complex cx cy" bounds] assms(6,7) h t
    by simp
  have "walk_loop flt True x_off y_off 0 [circle] no_bounds
          = walk_loop flt True x_off y_off (Suc 0) [circle]
              (update_bounds no_bounds (Complex cx cy))"
    using walk_loop_circle [of 0 "[circle]" flt x_off y_off "Complex cx cy" no_bounds] h t
    by simp
  then have grp: "walk_group flt (Element ''g'' ga [circle]) True x_off y_off
           = Inr ((Some cx, Some cy, Some cx, Some cy), Element ''g'' ga [circle])"
    by (simp add: and_then_def no_bounds_def walk_loop.simps [of _ _ _ _ "Suc 0"])
  from step merge_bounds_point grp show ?thesis by simp
qed

lemma decimal_float_7: "decimal_float ''7'' = Some 7"
  by code_simp

lemma decimal_float_3: "decimal_float ''3'' = Some 3"
  by code_simp

theorem C7_circle_contributes_center_witness:
  "walk_group decimal_float (Element ''g'' [] [circle_element ''7'' ''3'' ''100'']) True 0 0
     = Inr ((Some 7, Some 3, Some 7, Some 3),
            Element ''g'' [] [circle_element ''7'' ''3'' ''100''])"
proof -
  let ?attrs = "[(''cx'', Str (lit ''7'')), (''cy'', Str (lit ''3''))]"
  have c: "circle_element ''7'' ''3'' ''100''
             = Element ''circle'' (update_attrib ''r'' (Str (lit ''100'')) ?attrs) []"
    by (simp add: circle_element_def)
  have x: "attr_float decimal_float (Str (lit ''7'')) = Inr 7"
    by (simp add: lit_def decimal_float_7)
  have y: "attr_float decimal_float (Str (lit ''3'')) = Inr 3"
    by (simp add: lit_def decimal_float_3)
  show ?thesis
    by (rule C7_circle_contributes_center
               [of ?attrs "Str (lit ''7'')" decimal_float 7 "Str (lit ''3'')" 3
                   "circle_element ''7'' ''3'' ''100''" "Str (lit ''100'')" "[]" 0
                   "[circle_element ''7'' ''3'' ''100'']" 0 0 no_bounds "[]",
                OF _ x _ y c, THEN conjunct2, THEN conjunct2])
       simp_all
qed

section \<open>Scaling\<close>

lemma round_double_1: "round_double 1 = 1"
  by code_simp

text \<open>
  The rounding at some known doubles: one tenth, one third, three tenths, and the two ties
  above \<open>2\<^sup>5\<^sup>3\<close>, which go to the even significand.
\<close>

lemma round_double_known:
  "round_double (1 / 10) = 3602879701896397 / 2 ^ 55"
  "round_double (1 / 3) = 6004799503160661 / 2 ^ 54"
  "round_double (3 / 10) = 5404319552844595 / 2 ^ 54"
  "round_double (2 ^ 53 + 1) = 2 ^ 53"
  "round_double (2 ^ 53 + 3) = 2 ^ 53 + 4"
  by code_simp+




section \<open>Placement on the page\<close>

lemma positions_anchor_names:
  "positions = [anchor_name row col. row \<leftarrow> [Leading, Centered, Trailing],
                                    col \<leftarrow> [Leading, Centered, Trailing]]"
  by (simp add: positions_def anchor_name_def)

text \<open>
  Claim C9. For each of the nine anchors \<^verbatim>\<open>decide_svg_xy\<close> returns the placement rule of the
  specification on each axis, the column deciding x and the row deciding y, with the content
  size and the padding brought to the unit of the page by the factor \<open>mm\<close>. For a page of
  210 by 297, padding 10, the bottom-right anchor and content of 50 by 30 the result is
  (150, 257) in millimetres, whatever the unit of the page.
\<close>

theorem C9_decide_svg_xy_aligns:
  "decide_svg_xy mm A4 width height padding (anchor_name row col)
     = Some (align_axis col (fst A4) (width * mm) (padding * mm),
             align_axis row (snd A4) (height * mm) (padding * mm))
   \<and> decide_svg_xy 1 (210, 297) 50 30 10 ''BR'' = Some (150, 257)
   \<and> decide_svg_xy mm (210 * mm, 297 * mm) 50 30 10 ''BR'' = Some (150 * mm, 257 * mm)"
  by (cases row; cases col)
     (simp_all add: decide_svg_xy_def align_axis_def anchor_name_def algebra_simps)

section \<open>The layout\<close>

text \<open>
  A run of \<^verbatim>\<open>main\<close> that raises nothing, from its stages: the tags normalise, the
  measuring loop gives a box with all four entries set, the scale is not zero, and the second
  loop succeeds with the offsets computed from them.
\<close>

lemma main_run:
  assumes n: "normalize_tags parsed = Inr root0"
    and m: "measure_loop flt (children root0) no_bounds
              = Inr ((Some b0, Some b1, Some b2, Some b3), cs1)"
    and s: "analyze_scaling flt (Element (tag root0) (attrib root0) cs1)
              = Inr (w, h, mm_per_uu)"
    and z: "mm_per_uu \<noteq> 0"
    and p: "pad = (if rect_width a = 0 then 0 else rect_distance a)"
    and u: "uu_per_mm = round_double (1 / mm_per_uu)"
    and x: "x_off = - b0 + uu_per_mm * (real_of_int (rect_width a) + pad)"
    and y: "y_off = - b1 + uu_per_mm * (real_of_int (rect_width a) + pad)"
    and t: "transform_loop flt x_off y_off cs1 = Inr cs2"
    and uw: "uuwidth = (b2 - b0) + uu_per_mm * (pad * 2 + real_of_int (rect_width a) * 2)"
    and uh: "uuheight = (b3 - b1) + uu_per_mm * (pad * 2 + real_of_int (rect_width a) * 2)"
    and rw: "rect_width_uu = real_of_int (rect_width a) * uu_per_mm"
  shows "main flt a parsed
           = Inr \<lparr> out_tree =
                     Element (tag root0)
                       (canvas_attrib (mm_per_uu * uuwidth) (mm_per_uu * uuheight)
                          uuwidth uuheight (attrib root0))
                       (cs2 @ [border_rect (rect_width_uu / 2) (rect_width_uu / 2)
                                 (uuwidth - rect_width_uu) (uuheight - rect_width_uu)
                                 rect_width_uu (rect_color a)]),
                   out_x_off = x_off, out_y_off = y_off,
                   out_uuwidth = uuwidth, out_uuheight = uuheight,
                   out_mmwidth = mm_per_uu * uuwidth, out_mmheight = mm_per_uu * uuheight,
                   out_rect_width_uu = rect_width_uu \<rparr>"
proof -
  note t' = t [unfolded x y p u]
  show ?thesis
    unfolding main_def x y uw uh rw p u
    by (simp only: n m s t' z Let_def and_then_Inr entry_def py_div_def canvas_attrib_def
          border_rect_def element.sel prod.case snd_conv fst_conv option.case if_False
          append_Cons append_Nil)
qed


lemmas walk_eval =
  walk_loop.simps Let_def ignore_tags_def strip_tags_def remove_at_def and_then_def
  handle_path_def handle_circle_def get_attrib_def set_attrib_def no_bounds_def
  manip_start_end_def merge_entry_def normalize_tag_def


section \<open>The loop of the walker, branch by branch\<close>

lemma remove_at_append: "remove_at (length front + i) (front @ xs) = front @ remove_at i xs"
  by (simp add: remove_at_def)

lemma length_remove_at: "i < length xs \<Longrightarrow> length (remove_at i xs) = length xs - 1"
  by (simp add: remove_at_def)

lemma walk_loop_done:
  "length cs \<le> i \<Longrightarrow> walk_loop flt bm xo yo i cs b = Inr (b, cs)"
  by (subst walk_loop.simps) simp

lemma walk_loop_ignore:
  "i < length cs \<Longrightarrow> tag (cs ! i) \<in> set ignore_tags \<Longrightarrow>
     walk_loop flt bm xo yo i cs b = walk_loop flt bm xo yo (Suc i) cs b"
  by (subst walk_loop.simps) (simp add: Let_def)

lemma walk_loop_strip:
  "i < length cs \<Longrightarrow> tag (cs ! i) \<in> set strip_tags \<Longrightarrow>
     walk_loop flt bm xo yo i cs b = walk_loop flt bm xo yo (Suc i) (remove_at i cs) b"
  by (subst walk_loop.simps) (auto simp add: Let_def strip_tags_def ignore_tags_def)

lemma walk_loop_unknown:
  "i < length cs \<Longrightarrow> tag (cs ! i) \<notin> set known_tags \<Longrightarrow>
     walk_loop flt bm xo yo i cs b = Inl UnknownElement"
  by (subst walk_loop.simps) (simp add: Let_def known_tags_def)

lemma walk_loop_handled:
  assumes "i < length cs" and "tag (cs ! i) \<in> {''g'', ''path'', ''circle''}"
  shows "walk_loop flt bm xo yo i cs b
           = and_then (handle_child flt bm xo yo (cs ! i) b) (\<lambda>(b', e').
               walk_loop flt bm xo yo (Suc i) (cs[i := e']) b')"
proof -
  have t: "tag (cs ! i) \<notin> set ignore_tags" "tag (cs ! i) \<notin> set strip_tags"
    using assms(2) by (auto simp: ignore_tags_def strip_tags_def)
  from assms(2) consider "tag (cs ! i) = ''g''" | "tag (cs ! i) = ''path''"
    | "tag (cs ! i) = ''circle''" by auto
  then show ?thesis
  proof cases
    case 1
    with assms(1) t show ?thesis
      by (subst walk_loop.simps)
         (simp add: Let_def handle_child_def and_then_assoc split_def)
  next
    case 2
    with assms(1) t show ?thesis
      by (subst walk_loop.simps)
         (simp add: Let_def handle_child_def and_then_assoc split_def)
  next
    case 3
    with assms(1) t show ?thesis
      by (subst walk_loop.simps)
         (simp add: Let_def handle_child_def and_then_assoc split_def)
  qed
qed

lemma tag_cases:
  obtains (ignore) "tag e \<in> set ignore_tags"
  | (strip) "tag e \<in> set strip_tags"
  | (handled) "tag e \<in> {''g'', ''path'', ''circle''}"
  | (unknown) "tag e \<notin> set known_tags"
  by (auto simp: known_tags_def)

text \<open>
  Children in front of the loop's position take no part in the rest of the loop: they are
  neither read nor changed.
\<close>

lemma walk_loop_prefix:
  "walk_loop flt bm xo yo (length front + i) (front @ xs) b
     = and_then (walk_loop flt bm xo yo i xs b) (\<lambda>(b', xs'). Inr (b', front @ xs'))"
proof (induction "length xs - i" arbitrary: i xs b rule: less_induct)
  case less
  show ?case
  proof (cases "length xs \<le> i")
    case True
    then show ?thesis
      by (simp add: walk_loop_done)
  next
    case False
    then have i: "i < length xs" and i': "length front + i < length (front @ xs)"
      by simp_all
    have nth: "(front @ xs) ! (length front + i) = xs ! i"
      by (simp add: nth_append)
    have upd: "\<And>e. (front @ xs)[length front + i := e] = front @ xs[i := e]"
      by (simp add: list_update_append)
    have ih: "walk_loop flt bm xo yo (length front + Suc i) (front @ ys) b'
        = and_then (walk_loop flt bm xo yo (Suc i) ys b') (\<lambda>(b', xs'). Inr (b', front @ xs'))"
      if "length ys \<le> length xs" for ys b'
      using less [of ys "Suc i" b'] i that by simp
    show ?thesis
    proof (cases "xs ! i" rule: tag_cases)
      case ignore
      then show ?thesis
        using walk_loop_ignore [OF i', of flt bm xo yo b]
          walk_loop_ignore [OF i, of flt bm xo yo b] ih [of xs b]
        by (simp add: nth)
    next
      case strip
      then show ?thesis
        using walk_loop_strip [OF i', of flt bm xo yo b]
          walk_loop_strip [OF i, of flt bm xo yo b] ih [of "remove_at i xs" b] i
        by (simp add: nth remove_at_append length_remove_at)
    next
      case handled
      have "walk_loop flt bm xo yo (length front + i) (front @ xs) b
          = and_then (handle_child flt bm xo yo (xs ! i) b) (\<lambda>(b', e').
               walk_loop flt bm xo yo (length front + Suc i) (front @ xs[i := e']) b')"
        using walk_loop_handled [OF i', of flt bm xo yo b] handled by (simp add: nth upd)
      also have "\<dots> = and_then (handle_child flt bm xo yo (xs ! i) b) (\<lambda>(b', e').
               and_then (walk_loop flt bm xo yo (Suc i) (xs[i := e']) b')
                 (\<lambda>(b', xs'). Inr (b', front @ xs')))"
      proof -
        have "walk_loop flt bm xo yo (Suc (length front + i)) (front @ xs[i := e']) b'
            = and_then (walk_loop flt bm xo yo (Suc i) (xs[i := e']) b')
                (\<lambda>(b', xs'). Inr (b', front @ xs'))" for e' b'
          using ih [of "xs[i := e']" b'] by simp
        then show ?thesis by simp
      qed
      also have "\<dots> = and_then (walk_loop flt bm xo yo i xs b)
                          (\<lambda>(b', xs'). Inr (b', front @ xs'))"
        using walk_loop_handled [OF i, of flt bm xo yo b] handled
        by (simp add: and_then_assoc split_def)
      finally show ?thesis .
    next
      case unknown
      then show ?thesis
        using walk_loop_unknown [OF i', of flt bm xo yo b]
          walk_loop_unknown [OF i, of flt bm xo yo b]
        by (simp add: nth)
    qed
  qed
qed

section \<open>Removal during the loop\<close>

text \<open>
  Claim C10. The loop is at a child \<open>t\<close> of the strip set, with the children \<open>pre\<close> before
  it, the sibling \<open>s\<close> right after it and the children \<open>post\<close> after that. In either mode
  the loop then does what it does on \<open>post\<close> alone, from the bounds it has: \<open>s\<close> adds nothing
  to the bounds, raises nothing whatever its tag, and stays in the group as it was, where
  \<open>t\<close> is gone.
\<close>

theorem C10_sibling_after_strip_skipped:
  assumes "tag t \<in> set strip_tags"
  shows "walk_loop flt bounds_mode x_off y_off (length pre) (pre @ t # s # post) bounds
           = and_then (walk_loop flt bounds_mode x_off y_off 0 post bounds)
               (\<lambda>(bounds', post'). Inr (bounds', pre @ s # post'))"
proof -
  have "walk_loop flt bounds_mode x_off y_off (length pre) (pre @ t # s # post) bounds
      = walk_loop flt bounds_mode x_off y_off (Suc (length pre)) (pre @ s # post) bounds"
    using assms
      walk_loop_strip [of "length pre" "pre @ t # s # post" flt bounds_mode x_off y_off bounds]
    by (simp add: remove_at_def)
  also have "\<dots> = and_then (walk_loop flt bounds_mode x_off y_off 0 post bounds)
               (\<lambda>(bounds', post'). Inr (bounds', (pre @ [s]) @ post'))"
    using walk_loop_prefix [of flt bounds_mode x_off y_off "pre @ [s]" 0 post bounds]
    by simp
  finally show ?thesis by simp
qed

text \<open>
  A group with a text, an element of unknown tag and a circle at (7, 3): in bounds mode the
  walk raises nothing and returns the circle's point; with the offsets (1, 2) the circle
  moves and the element after the text is left alone.
\<close>

theorem C10_sibling_after_strip_skipped_witness:
  "tag (Element ''text'' [] []) \<in> set strip_tags
   \<and> walk_group decimal_float
       (Element ''g'' []
          [Element ''text'' [] [], Element ''rect'' [] [], circle_element ''7'' ''3'' ''1''])
       True 0 0
     = Inr ((Some 7, Some 3, Some 7, Some 3),
            Element ''g'' [] [Element ''rect'' [] [], circle_element ''7'' ''3'' ''1''])
   \<and> walk_group decimal_float
       (Element ''g'' []
          [Element ''text'' [] [], circle_element ''7'' ''3'' ''1'',
           circle_element ''7'' ''3'' ''1''])
       False 1 2
     = Inr (no_bounds,
            Element ''g'' []
              [circle_element ''7'' ''3'' ''1'',
               Element ''circle''
                 [(''cx'', Str [Fl 8]), (''cy'', Str [Fl 5]), (''r'', Str (lit ''1''))] []])"
proof -
  have t: "tag (Element ''text'' [] []) \<in> set strip_tags"
    by (simp add: strip_tags_def)
  have m: "walk_loop decimal_float True 0 0 0 [circle_element ''7'' ''3'' ''1''] no_bounds
             = Inr ((Some 7, Some 3, Some 7, Some 3), [circle_element ''7'' ''3'' ''1''])"
    by (simp add: walk_eval circle_element_def lit_def decimal_float_7 decimal_float_3
          del: and_then_Inr and_then_Inl)
  have f: "walk_loop decimal_float False 1 2 0 [circle_element ''7'' ''3'' ''1''] no_bounds
             = Inr (no_bounds,
                    [Element ''circle''
                       [(''cx'', Str [Fl 8]), (''cy'', Str [Fl 5]), (''r'', Str (lit ''1''))] []])"
    by (simp add: walk_eval circle_element_def lit_def decimal_float_7 decimal_float_3
          del: and_then_Inr and_then_Inl)
  from C10_sibling_after_strip_skipped
         [OF t, of decimal_float True 0 0 "[]" "Element ''rect'' [] []"
            "[circle_element ''7'' ''3'' ''1'']" no_bounds]
       C10_sibling_after_strip_skipped
         [OF t, of decimal_float False 1 2 "[]" "circle_element ''7'' ''3'' ''1''"
            "[circle_element ''7'' ''3'' ''1'']" no_bounds]
       t m f
  show ?thesis by simp
qed

section \<open>Unknown elements\<close>

text \<open>
  While the loop meets no child of the strip set, the children behind a part of the list
  wait until the loop is through with that part.
\<close>

lemma walk_loop_split:
  assumes "\<forall>e \<in> set (drop i xs). tag e \<notin> set strip_tags" and "i \<le> length xs"
  shows "walk_loop flt bm xo yo i (xs @ ys) b
     = and_then (walk_loop flt bm xo yo i xs b)
         (\<lambda>(b', xs'). walk_loop flt bm xo yo (length xs') (xs' @ ys) b')"
  using assms
proof (induction "length xs - i" arbitrary: i xs b rule: less_induct)
  case less
  show ?case
  proof (cases "length xs \<le> i")
    case True
    with less.prems(2) have "i = length xs" by simp
    then show ?thesis
      by (simp add: walk_loop_done)
  next
    case False
    then have i: "i < length xs" and i': "i < length (xs @ ys)"
      by simp_all
    have nth: "(xs @ ys) ! i = xs ! i"
      using i by (simp add: nth_append)
    have upd: "\<And>e. (xs @ ys)[i := e] = xs[i := e] @ ys"
      using i by (simp add: list_update_append)
    have ns: "tag (xs ! i) \<notin> set strip_tags"
      using less.prems(1) i by (metis Cons_nth_drop_Suc list.set_intros(1))
    have rest: "\<forall>e \<in> set (drop (Suc i) zs). tag e \<notin> set strip_tags"
      if "drop (Suc i) zs = drop (Suc i) xs" for zs
      using less.prems(1) that by (metis i Cons_nth_drop_Suc list.set_intros(2))
    have ih: "walk_loop flt bm xo yo (Suc i) (zs @ ys) b'
        = and_then (walk_loop flt bm xo yo (Suc i) zs b')
            (\<lambda>(b', xs'). walk_loop flt bm xo yo (length xs') (xs' @ ys) b')"
      if "length zs = length xs" and "drop (Suc i) zs = drop (Suc i) xs" for zs b'
      using less.hyps [of zs "Suc i" b'] i that rest [OF that(2)] by simp
    show ?thesis
    proof (cases "xs ! i" rule: tag_cases)
      case ignore
      then show ?thesis
        using walk_loop_ignore [OF i', of flt bm xo yo b]
          walk_loop_ignore [OF i, of flt bm xo yo b] ih [of xs b]
        by (simp add: nth)
    next
      case strip
      with ns show ?thesis by simp
    next
      case handled
      have "walk_loop flt bm xo yo i (xs @ ys) b
          = and_then (handle_child flt bm xo yo (xs ! i) b) (\<lambda>(b', e').
               walk_loop flt bm xo yo (Suc i) (xs[i := e'] @ ys) b')"
        using walk_loop_handled [OF i', of flt bm xo yo b] handled by (simp add: nth upd)
      also have "\<dots> = and_then (handle_child flt bm xo yo (xs ! i) b) (\<lambda>(b', e').
               and_then (walk_loop flt bm xo yo (Suc i) (xs[i := e']) b')
                 (\<lambda>(b', xs'). walk_loop flt bm xo yo (length xs') (xs' @ ys) b'))"
      proof -
        have "walk_loop flt bm xo yo (Suc i) (xs[i := e'] @ ys) b'
            = and_then (walk_loop flt bm xo yo (Suc i) (xs[i := e']) b')
                (\<lambda>(b', xs'). walk_loop flt bm xo yo (length xs') (xs' @ ys) b')" for e' b'
          using ih [of "xs[i := e']" b'] by simp
        then show ?thesis by simp
      qed
      also have "\<dots> = and_then (walk_loop flt bm xo yo i xs b)
                          (\<lambda>(b', xs'). walk_loop flt bm xo yo (length xs') (xs' @ ys) b')"
        using walk_loop_handled [OF i, of flt bm xo yo b] handled
        by (simp add: and_then_assoc split_def)
      finally show ?thesis .
    next
      case unknown
      then show ?thesis
        using walk_loop_unknown [OF i', of flt bm xo yo b]
          walk_loop_unknown [OF i, of flt bm xo yo b]
        by (simp add: nth)
    qed
  qed
qed

lemma measure_loop_stops:
  assumes "measure_loop flt before gb0 = Inr (gb, before')"
    and "tag grp = ''g''" and "walk_group flt grp True 0 0 = Inl e"
  shows "measure_loop flt (before @ grp # after) gb0 = Inl e"
  using assms(1)
proof (induction before arbitrary: gb0 gb before')
  case Nil
  then show ?case using assms(2,3) by simp
next
  case (Cons c cs)
  show ?case
  proof (cases "tag c = ''g''")
    case True
    with Cons.prems obtain b c' gb1 where
      "walk_group flt c True 0 0 = Inr (b, c')" "merge_bounds gb0 b = Inr gb1"
      "\<exists>r. measure_loop flt cs gb1 = Inr r"
      by (auto simp: and_then_def split: sum.splits prod.splits)
    then show ?thesis
      using True Cons.IH [of gb1] by (auto simp del: merge_bounds.simps)
  next
    case False
    with Cons.prems have "\<exists>r. measure_loop flt cs gb0 = Inr r"
      by (auto simp: and_then_def split: sum.splits prod.splits)
    then show ?thesis
      using False Cons.IH [of gb0] by auto
  qed
qed

text \<open>
  Claim C2, as the code has it. \<^verbatim>\<open>main\<close> walks only the children of the root with tag
  \<^verbatim>\<open>g\<close>, so the unknown element must be inside such a group. When the tags of the document
  normalise (each carries a namespace in braces), the children before the element in its
  group hold none of the strip set and are walked without failure, and the children of the
  root before the group are measured without failure, then the first loop of \<^verbatim>\<open>main\<close>, the
  measuring pass, stops with the unknown-element failure, and so does the run: the failure
  comes before the scaling analysis, before the offsets are computed and before the second
  loop applies them, and no tree is written.
\<close>

theorem C2_unknown_in_group_stops_run:
  assumes "normalize_tags parsed = Inr root0"
    and "children root0 = before @ Element ''g'' ga (pre @ u # rest) # after"
    and "measure_loop flt before no_bounds = Inr (gb, before')"
    and "\<forall>e \<in> set pre. tag e \<notin> set strip_tags"
    and "walk_loop flt True 0 0 0 pre no_bounds = Inr (pb, pre')"
    and "tag u \<notin> set known_tags"
  shows "measure_loop flt (children root0) no_bounds = Inl UnknownElement
         \<and> main flt a parsed = Inl UnknownElement"
proof -
  have "walk_loop flt True 0 0 0 (pre @ u # rest) no_bounds
          = walk_loop flt True 0 0 (length pre') (pre' @ u # rest) pb"
    using walk_loop_split [of 0 pre flt True 0 0 "u # rest" no_bounds] assms(4,5) by simp
  also have "\<dots> = Inl UnknownElement"
    using assms(6) by (intro walk_loop_unknown) simp_all
  finally have "walk_group flt (Element ''g'' ga (pre @ u # rest)) True 0 0
                  = Inl UnknownElement"
    by simp
  then have m: "measure_loop flt (children root0) no_bounds = Inl UnknownElement"
    using measure_loop_stops [OF assms(3), of "Element ''g'' ga (pre @ u # rest)"] assms(2)
    by simp
  then have "main flt a parsed = Inl UnknownElement"
    using assms(1) by (simp add: main_def)
  with m show ?thesis by simp
qed

theorem C2_unknown_in_group_stops_run_witness:
  "normalize_tags nested_doc
     = Inr (Element ''svg''
              [(''width'', Str (lit ''200mm'')), (''height'', Str (lit ''100mm'')),
               (''viewBox'', Str (lit ''0 0 200 100''))]
              [Element ''defs'' [] [],
               Element ''g'' []
                 [Element ''title'' [] [],
                  Element ''circle'' [(''cx'', Str (lit ''7'')), (''cy'', Str (lit ''3''))] [],
                  Element ''rect'' [] []]])
   \<and> measure_loop decimal_float
         [Element ''defs'' [] [],
          Element ''g'' []
            [Element ''title'' [] [],
             Element ''circle'' [(''cx'', Str (lit ''7'')), (''cy'', Str (lit ''3''))] [],
             Element ''rect'' [] []]] no_bounds
       = Inl UnknownElement
   \<and> main decimal_float default_args nested_doc = Inl UnknownElement"
proof -
  let ?attrs = "[(''width'', Str (lit ''200mm'')), (''height'', Str (lit ''100mm'')),
                 (''viewBox'', Str (lit ''0 0 200 100''))]"
  let ?pre = "[Element ''title'' [] [],
               Element ''circle'' [(''cx'', Str (lit ''7'')), (''cy'', Str (lit ''3''))] []]"
  let ?u = "Element ''rect'' [] []"
  let ?root0 = "Element ''svg'' ?attrs
                  [Element ''defs'' [] [], Element ''g'' [] (?pre @ [?u])]"
  have n: "normalize_tags nested_doc = Inr ?root0"
    by (simp add: nested_doc_def svg_root_def normalize_tag_def)
  have c: "children ?root0 = [Element ''defs'' [] []] @ Element ''g'' [] (?pre @ ?u # []) # []"
    by simp
  have b: "measure_loop decimal_float [Element ''defs'' [] []] no_bounds
             = Inr (no_bounds, [Element ''defs'' [] []])"
    by simp
  have p: "\<forall>e \<in> set ?pre. tag e \<notin> set strip_tags"
    by (simp add: strip_tags_def)
  have w: "walk_loop decimal_float True 0 0 0 ?pre no_bounds
             = Inr ((Some 7, Some 3, Some 7, Some 3), ?pre)"
    by (simp add: walk_eval lit_def decimal_float_7 decimal_float_3
          del: and_then_Inr and_then_Inl)
  have u: "tag ?u \<notin> set known_tags"
    by (simp add: known_tags_def ignore_tags_def strip_tags_def)
  from C2_unknown_in_group_stops_run [OF n c b p w u, of default_args] n
  show ?thesis by simp
qed

text \<open>
  The claim as written makes an unknown tag among the children of the root a failure. The
  root of \<open>stray_doc\<close> has such a child; the run raises nothing, moves the content of the
  group and leaves the child where it was.
\<close>

theorem C2_counterexample:
  "main decimal_float default_args stray_doc
     = Inr \<lparr> out_tree =
               Element ''svg''
                 (canvas_attrib 113 63 113 63
                    [(''width'', Str (lit ''200mm'')), (''height'', Str (lit ''100mm'')),
                     (''viewBox'', Str (lit ''0 0 200 100''))])
                 [Element ''g'' []
                    [Element ''path''
                       [(''d'', PathData
                           [Command Move (Complex 6.5 6.5) (Complex 6.5 6.5),
                            Command Line (Complex 6.5 6.5) (Complex 106.5 56.5)])] []],
                  Element ''rect'' [] [],
                  border_rect 2.5 2.5 108 58 5 ''#000000''],
             out_x_off = 6.5, out_y_off = 6.5,
             out_uuwidth = 113, out_uuheight = 63,
             out_mmwidth = 113, out_mmheight = 63,
             out_rect_width_uu = 5 \<rparr>"
proof -
  let ?attrs = "[(''width'', Str (lit ''200mm'')), (''height'', Str (lit ''100mm'')),
                 (''viewBox'', Str (lit ''0 0 200 100''))]"
  let ?cs1 = "[Element ''g'' [] [Element ''path'' [(''d'', PathData diagonal_path)] []],
               Element ''rect'' [] []]"
  have n: "normalize_tags stray_doc = Inr (Element ''svg'' ?attrs ?cs1)"
    by (simp add: stray_doc_def svg_root_def normalize_tag_def)
  have m: "measure_loop decimal_float ?cs1 no_bounds
             = Inr ((Some 0, Some 0, Some 100, Some 50), ?cs1)"
    by (simp add: walk_eval diagonal_path_def del: and_then_Inr and_then_Inl)
  have s: "analyze_scaling decimal_float (Element ''svg'' ?attrs ?cs1) = Inr (200, 100, 1)"
    by code_simp
  let ?cs2 = "[Element ''g'' []
                 [Element ''path''
                    [(''d'', PathData
                        [Command Move (Complex 6.5 6.5) (Complex 6.5 6.5),
                         Command Line (Complex 6.5 6.5) (Complex 106.5 56.5)])] []],
               Element ''rect'' [] []]"
  have t: "transform_loop decimal_float (13 / 2) (13 / 2) ?cs1 = Inr ?cs2"
    by (simp add: walk_eval diagonal_path_def del: and_then_Inr and_then_Inl)
  have a: "rect_width default_args = 5" "rect_distance default_args = 3 / 2"
    "rect_color default_args = ''#000000''"
    by (simp_all add: default_args_def)
  have "main decimal_float default_args stray_doc
          = Inr \<lparr> out_tree =
                    Element ''svg'' (canvas_attrib (1 * 113) (1 * 63) 113 63 ?attrs)
                      (?cs2 @ [border_rect (5 / 2) (5 / 2) (113 - 5) (63 - 5) 5
                                 (rect_color default_args)]),
                  out_x_off = 13 / 2, out_y_off = 13 / 2,
                  out_uuwidth = 113, out_uuheight = 63,
                  out_mmwidth = 1 * 113, out_mmheight = 1 * 63,
                  out_rect_width_uu = 5 \<rparr>"
    by (rule main_run [OF n, where pad = "3 / 2" and uu_per_mm = 1 and ?b0.0 = 0
                             and ?b1.0 = 0 and ?b2.0 = 100 and ?b3.0 = 50 and w = 200
                             and h = 100,
                          simplified element.sel, OF m s _ _ _ _ _ t])
       (simp_all add: a round_double_1)
  then show ?thesis
    by (simp add: a)
qed

section \<open>Moved boxes\<close>

lemma merge_entry_shift_lt:
  "merge_entry py_lt s0 d s = Inr r \<Longrightarrow>
     merge_entry py_lt (map_option (\<lambda>v. v + k0) s0) (map_option (\<lambda>v. v + k) d)
       (map_option (\<lambda>v. v + k) s) = Inr (map_option (\<lambda>v. v + k) r)"
  by (cases s0; cases d; cases s) (auto simp: merge_entry_def split: if_splits)

lemma merge_entry_shift_gt:
  "merge_entry py_gt s0 d s = Inr r \<Longrightarrow>
     merge_entry py_gt (map_option (\<lambda>v. v + k0) s0) (map_option (\<lambda>v. v + k) d)
       (map_option (\<lambda>v. v + k) s) = Inr (map_option (\<lambda>v. v + k) r)"
  by (cases s0; cases d; cases s) (auto simp: merge_entry_def split: if_splits)

lemma merge_bounds_Inr:
  "merge_bounds (b0, b1, b2, b3) (g0, g1, g2, g3) = Inr r \<longleftrightarrow>
     (\<exists>r0 r1 r2 r3. r = (r0, r1, r2, r3)
        \<and> merge_entry py_lt g0 b0 g0 = Inr r0 \<and> merge_entry py_lt g0 b1 g1 = Inr r1
        \<and> merge_entry py_gt g0 b2 g2 = Inr r2 \<and> merge_entry py_gt g0 b3 g3 = Inr r3)"
  by (cases "merge_entry py_lt g0 b0 g0"; cases "merge_entry py_lt g0 b1 g1";
      cases "merge_entry py_gt g0 b2 g2"; cases "merge_entry py_gt g0 b3 g3")
     (cases r; simp; blast)+

lemma merge_bounds_shift:
  assumes "merge_bounds b g = Inr r"
  shows "merge_bounds (shift_bounds dx dy b) (shift_bounds dx dy g) = Inr (shift_bounds dx dy r)"
proof -
  obtain b0 b1 b2 b3 where b: "b = (b0, b1, b2, b3)" by (cases b)
  obtain g0 g1 g2 g3 where g: "g = (g0, g1, g2, g3)" by (cases g)
  from assms obtain r0 r1 r2 r3 where
    r: "r = (r0, r1, r2, r3)"
    and 0: "merge_entry py_lt g0 b0 g0 = Inr r0"
    and 1: "merge_entry py_lt g0 b1 g1 = Inr r1"
    and 2: "merge_entry py_gt g0 b2 g2 = Inr r2"
    and 3: "merge_entry py_gt g0 b3 g3 = Inr r3"
    unfolding b g merge_bounds_Inr by blast
  show ?thesis
    unfolding b g r shift_bounds_def prod.case merge_bounds_Inr
    using merge_entry_shift_lt [OF 0, of dx dx]
          merge_entry_shift_lt [OF 1, of dx dy] merge_entry_shift_gt [OF 2, of dx dx]
          merge_entry_shift_gt [OF 3, of dx dy]
    by blast
qed
lemma shift_no_bounds [simp]: "shift_bounds dx dy no_bounds = no_bounds"
  by (simp add: shift_bounds_def no_bounds_def)

lemma update_bounds_shift:
  "update_bounds (shift_bounds dx dy b) (Complex (Re p + dx) (Im p + dy))
     = shift_bounds dx dy (update_bounds b p)"
proof -
  obtain b0 b1 b2 b3 where b: "b = (b0, b1, b2, b3)" by (cases b)
  have e: "(if map_option (\<lambda>v. v + k) d = None \<or> x + k < the (map_option (\<lambda>v. v + k) d)
            then Some (x + k) else map_option (\<lambda>v. v + k) d)
         = map_option (\<lambda>v. v + k) (if d = None \<or> x < the d then Some x else d)"
    and f: "(if map_option (\<lambda>v. v + k) d = None \<or> x + k > the (map_option (\<lambda>v. v + k) d)
            then Some (x + k) else map_option (\<lambda>v. v + k) d)
         = map_option (\<lambda>v. v + k) (if d = None \<or> x > the d then Some x else d)"
    for k x :: real and d
    by (cases d; simp)+
  show ?thesis
    unfolding b shift_bounds_def prod.case update_bounds.simps complex.sel
    by (simp only: e f)
qed

lemma path_loop_supported:
  "path_loop bm xo yo path b = Inr r \<Longrightarrow> list_all (\<lambda>c. supported_command (ctype c)) path"
proof (induction path arbitrary: b r)
  case Nil
  then show ?case by simp
next
  case (Cons c path)
  from Cons.prems have s: "supported_command (ctype c)"
    by (simp split: if_splits)
  have "\<exists>b' r'. path_loop bm xo yo path b' = Inr r'"
  proof (cases bm)
    case True
    with Cons.prems s have
      "and_then (path_loop bm xo yo path (update_bounds (update_bounds b (start c)) (end' c)))
         (\<lambda>(bounds', path'). Inr (bounds', c # path')) = Inr r"
      by simp
    then obtain x where
      "path_loop bm xo yo path (update_bounds (update_bounds b (start c)) (end' c)) = Inr x"
      by (rule and_then_InrE)
    then show ?thesis by blast
  next
    case False
    with Cons.prems s have
      "and_then (path_loop bm xo yo path b)
         (\<lambda>(bounds', path'). Inr (bounds', manip_start_end c xo yo # path')) = Inr r"
      by simp
    then obtain x where "path_loop bm xo yo path b = Inr x"
      by (rule and_then_InrE)
    then show ?thesis by blast
  qed
  with Cons.IH s show ?case by auto
qed

lemma path_loop_transform:
  "list_all (\<lambda>c. supported_command (ctype c)) path \<Longrightarrow>
     path_loop False dx dy path b = Inr (b, map (shift_command dx dy) path)"
  by (induction path arbitrary: b) (simp_all add: shift_command_def)

lemma supported_shift:
  "list_all (\<lambda>c. supported_command (ctype c)) (map (shift_command dx dy) path)
     = list_all (\<lambda>c. supported_command (ctype c)) path"
  by (induction path) (simp_all add: shift_command_def manip_start_end_def)

lemma foldl_endpoints_shift:
  "foldl update_bounds (shift_bounds dx dy b) (endpoints (map (shift_command dx dy) path))
     = shift_bounds dx dy (foldl update_bounds b (endpoints path))"
proof (induction path arbitrary: b)
  case Nil
  then show ?case by (simp add: endpoints_def)
next
  case (Cons c path)
  have "foldl update_bounds (shift_bounds dx dy b) (endpoints (map (shift_command dx dy) (c # path)))
      = foldl update_bounds
          (update_bounds (update_bounds (shift_bounds dx dy b)
              (Complex (Re (start c) + dx) (Im (start c) + dy)))
              (Complex (Re (end' c) + dx) (Im (end' c) + dy)))
          (endpoints (map (shift_command dx dy) path))"
    by (simp add: endpoints_def shift_command_def manip_start_end_def)
  also have "\<dots> = foldl update_bounds
          (shift_bounds dx dy (update_bounds (update_bounds b (start c)) (end' c)))
          (endpoints (map (shift_command dx dy) path))"
    by (simp only: update_bounds_shift)
  also have "\<dots> = shift_bounds dx dy
          (foldl update_bounds (update_bounds (update_bounds b (start c)) (end' c)) (endpoints path))"
    by (rule Cons.IH)
  finally show ?case by (simp add: endpoints_def)
qed

lemma get_attrib_set_attrib:
  "get_attrib (set_attrib e key v) k = (if k = key then Inr v else get_attrib e k)"
  by (simp add: get_attrib_def set_attrib_def map_of_update_attrib)

lemma tag_set_attrib [simp]: "tag (set_attrib e key v) = tag e"
  by (simp add: set_attrib_def)

lemma children_set_attrib [simp]: "children (set_attrib e key v) = children e"
  by (simp add: set_attrib_def)

lemma strip_free_children: "strip_free e = (\<forall>c \<in> set (children e). tag c \<notin> set strip_tags \<and> strip_free c)"
  by (cases e) simp

lemma strip_free_set_attrib [simp]: "strip_free (set_attrib e key v) = strip_free e"
  by (cases e) (simp add: set_attrib_def)

lemma handle_path_round_trip:
  assumes "handle_path e True xo yo = Inr (pb, e1)"
  shows "e1 = e \<and> (\<exists>box e'. pb = Some box \<and> handle_path e False dx dy = Inr (None, e')
           \<and> tag e' = tag e \<and> strip_free e' = strip_free e
           \<and> handle_path e' True xo yo = Inr (Some (shift_bounds dx dy box), e'))"
proof -
  from assms obtain path where d: "get_attrib e ''d'' = Inr (PathData path)"
    and r: "\<exists>r. path_loop True xo yo path no_bounds = Inr r"
  proof -
    from assms [unfolded handle_path_def] obtain d where d: "get_attrib e ''d'' = Inr d"
      and 1: "and_then (parse_path d) (\<lambda>path.
                and_then (path_loop True xo yo path no_bounds) (\<lambda>(bounds, path').
                  if True then Inr (Some bounds, e)
                  else Inr (None, set_attrib e ''d'' (PathData path')))) = Inr (pb, e1)"
      by (rule and_then_InrE)
    from 1 obtain path where p: "parse_path d = Inr path"
      and 2: "and_then (path_loop True xo yo path no_bounds) (\<lambda>(bounds, path').
                  if True then Inr (Some bounds, e)
                  else Inr (None, set_attrib e ''d'' (PathData path'))) = Inr (pb, e1)"
      by (rule and_then_InrE)
    from p have "d = PathData path"
      by (cases d) simp_all
    moreover from 2 obtain r where "path_loop True xo yo path no_bounds = Inr r"
      by (rule and_then_InrE)
    ultimately show ?thesis
      using d that by blast
  qed
  from r have sup: "list_all (\<lambda>c. supported_command (ctype c)) path"
    by (auto dest: path_loop_supported)
  let ?e' = "set_attrib e ''d'' (PathData (map (shift_command dx dy) path))"
  have m: "handle_path e True xo yo = Inr (Some (foldl update_bounds no_bounds (endpoints path)), e)"
    using d sup by (simp add: handle_path_def path_loop_measure)
  have t: "handle_path e False dx dy = Inr (None, ?e')"
    using d sup by (simp add: handle_path_def path_loop_transform)
  have m': "handle_path ?e' True xo yo
      = Inr (Some (shift_bounds dx dy (foldl update_bounds no_bounds (endpoints path))), ?e')"
    using foldl_endpoints_shift [of dx dy no_bounds path]
    by (simp add: handle_path_def get_attrib_set_attrib path_loop_measure supported_shift sup)
  from assms m have "pb = Some (foldl update_bounds no_bounds (endpoints path))" "e1 = e"
    by simp_all
  with t m' show ?thesis
    by (intro conjI exI [of _ "foldl update_bounds no_bounds (endpoints path)"] exI [of _ ?e'])
       simp_all
qed

lemma py_float_Fl [simp]: "attr_float flt (Str [Fl x]) = Inr x"
  by simp

lemma handle_circle_round_trip:
  assumes "handle_circle flt e True xo yo = Inr (pos, e1)"
  shows "e1 = e \<and> (\<exists>p e'. pos = Some p \<and> handle_circle flt e False dx dy = Inr (None, e')
           \<and> tag e' = tag e \<and> strip_free e' = strip_free e
           \<and> handle_circle flt e' True xo yo = Inr (Some (Complex (Re p + dx) (Im p + dy)), e'))"
proof -
  from assms obtain ax x ay y where
    cx: "get_attrib e ''cx'' = Inr ax" "attr_float flt ax = Inr x"
    and cy: "get_attrib e ''cy'' = Inr ay" "attr_float flt ay = Inr y"
    and p: "pos = Some (Complex x y)" "e1 = e"
    unfolding handle_circle_def
    by (simp only: if_True) (elim and_then_InrE, auto)
  let ?e1 = "set_attrib e ''cx'' (Str [Fl (x + dx)])"
  let ?e' = "set_attrib ?e1 ''cy'' (Str [Fl (y + dy)])"
  have t: "handle_circle flt e False dx dy = Inr (None, ?e')"
    using cx cy by (simp add: handle_circle_def get_attrib_set_attrib Let_def)
  have m': "handle_circle flt ?e' True xo yo = Inr (Some (Complex (x + dx) (y + dy)), ?e')"
    by (simp add: handle_circle_def get_attrib_set_attrib)
  from p t m' show ?thesis
    by (intro conjI exI [of _ "Complex x y"] exI [of _ ?e']) simp_all
qed

section \<open>Transforming and measuring again\<close>

lemma walk_loop_Cons_ignore:
  assumes "tag e \<in> set ignore_tags"
  shows "walk_loop flt bm xo yo 0 (e # es) b
           = and_then (walk_loop flt bm xo yo 0 es b) (\<lambda>(b', es'). Inr (b', e # es'))"
  using walk_loop_ignore [of 0 "e # es" flt bm xo yo b] assms
    walk_loop_prefix [of flt bm xo yo "[e]" 0 es b]
  by simp

lemma walk_loop_Cons_handled:
  assumes "tag e \<in> {''g'', ''path'', ''circle''}"
  shows "walk_loop flt bm xo yo 0 (e # es) b
           = and_then (handle_child flt bm xo yo e b) (\<lambda>(b1, e').
               and_then (walk_loop flt bm xo yo 0 es b1) (\<lambda>(b', es'). Inr (b', e' # es')))"
proof -
  have "walk_loop flt bm xo yo (Suc 0) (e' # es) b1
          = and_then (walk_loop flt bm xo yo 0 es b1) (\<lambda>(b', es'). Inr (b', e' # es'))"
    for e' b1
    using walk_loop_prefix [of flt bm xo yo "[e']" 0 es b1] by simp
  then show ?thesis
    using walk_loop_handled [of 0 "e # es" flt bm xo yo b] assms by simp
qed

lemma walk_loop_Cons_unknown:
  assumes "tag e \<notin> set known_tags"
  shows "walk_loop flt bm xo yo 0 (e # es) b = Inl UnknownElement"
  using walk_loop_unknown [of 0 "e # es" flt bm xo yo b] assms by simp

lemma handle_child_g:
  "tag e = ''g'' \<Longrightarrow> handle_child flt bm xo yo e b
     = and_then (walk_group flt e bm xo yo) (\<lambda>(group_bounds, element').
       and_then (if bm then merge_bounds b group_bounds else Inr b) (\<lambda>bounds'.
         Inr (bounds', element')))"
  by (simp add: handle_child_def)

lemma handle_child_path:
  "tag e = ''path'' \<Longrightarrow> handle_child flt bm xo yo e b
     = and_then (handle_path e bm xo yo) (\<lambda>(path_bounds, element').
       and_then (if bm
                 then (case path_bounds of None \<Rightarrow> Inl TypeError
                       | Some pb \<Rightarrow> merge_bounds b pb)
                 else Inr b) (\<lambda>bounds'.
         Inr (bounds', element')))"
  by (simp add: handle_child_def)

lemma handle_child_circle:
  "tag e = ''circle'' \<Longrightarrow> handle_child flt bm xo yo e b
     = and_then (handle_circle flt e bm xo yo) (\<lambda>(pos, element').
       and_then (if bm
                 then (case pos of None \<Rightarrow> Inl AttributeError
                       | Some point \<Rightarrow> Inr (update_bounds b point))
                 else Inr b) (\<lambda>bounds'.
         Inr (bounds', element')))"
  by (simp add: handle_child_def)

lemma handle_child_round_trip:
  assumes h: "tag e \<in> {''g'', ''path'', ''circle''}"
    and grp: "tag e = ''g'' \<Longrightarrow> round_trip flt dx dy e"
    and sf: "strip_free e"
    and m: "handle_child flt True xo yo e b = Inr (r, e1)"
  shows "e1 = e \<and> (\<exists>e'. (\<forall>b0. handle_child flt False dx dy e b0 = Inr (b0, e'))
            \<and> tag e' = tag e \<and> strip_free e'
            \<and> handle_child flt True xo yo e' (shift_bounds dx dy b)
                 = Inr (shift_bounds dx dy r, e'))"
proof -
  from h consider (g) "tag e = ''g''" | (path) "tag e = ''path''" | (circle) "tag e = ''circle''"
    by auto
  then show ?thesis
  proof cases
    case g
    from m [unfolded handle_child_g [OF g] if_True]
    obtain w where w: "walk_group flt e True xo yo = Inr w"
      and 1: "(case w of (group_bounds, element') \<Rightarrow>
                and_then (merge_bounds b group_bounds) (\<lambda>bounds'. Inr (bounds', element')))
              = Inr (r, e1)"
      by (rule and_then_InrE)
    obtain gb e2 where w2: "w = (gb, e2)" by (cases w)
    from 1 [unfolded w2 prod.case]
    obtain r' where mb: "merge_bounds b gb = Inr r'" and 2: "(Inr (r', e2) :: error + bounds \<times> element) = Inr (r, e1)"
      by (rule and_then_InrE)
    from 2 have r: "r' = r" "e2 = e1" by simp_all
    from grp [OF g] w w2 r obtain e' where
      e: "e1 = e" and t: "walk_group flt e False dx dy = Inr (no_bounds, e')"
      and tg: "tag e' = tag e" and sf': "strip_free e'"
      and m': "walk_group flt e' True xo yo = Inr (shift_bounds dx dy gb, e')"
      unfolding round_trip_def by blast
    have "handle_child flt False dx dy e b0 = Inr (b0, e')" for b0
      using t by (simp add: handle_child_g [OF g])
    moreover have "handle_child flt True xo yo e' (shift_bounds dx dy b)
                 = Inr (shift_bounds dx dy r, e')"
      using g tg m' merge_bounds_shift [OF mb, of dx dy] r
      by (simp add: handle_child_g del: merge_bounds.simps)
    ultimately show ?thesis
      using e tg sf' by blast
  next
    case path
    from m [unfolded handle_child_path [OF path] if_True]
    obtain w where w: "handle_path e True xo yo = Inr w"
      and 1: "(case w of (path_bounds, element') \<Rightarrow>
                and_then (case path_bounds of None \<Rightarrow> Inl TypeError
                          | Some pb \<Rightarrow> merge_bounds b pb) (\<lambda>bounds'. Inr (bounds', element')))
              = Inr (r, e1)"
      by (rule and_then_InrE)
    obtain pb e2 where w2: "w = (pb, e2)" by (cases w)
    from handle_path_round_trip [OF w [unfolded w2], of dx dy] obtain box e' where
      e: "e2 = e" and pb: "pb = Some box" and t: "handle_path e False dx dy = Inr (None, e')"
      and tg: "tag e' = tag e" and sf': "strip_free e' = strip_free e"
      and m': "handle_path e' True xo yo = Inr (Some (shift_bounds dx dy box), e')"
      by blast
    from 1 [unfolded w2 pb prod.case option.case]
    obtain r' where mb: "merge_bounds b box = Inr r'" and 2: "(Inr (r', e2) :: error + bounds \<times> element) = Inr (r, e1)"
      by (rule and_then_InrE)
    from 2 have r: "r' = r" "e2 = e1" by simp_all
    have "handle_child flt False dx dy e b0 = Inr (b0, e')" for b0
      using t by (simp add: handle_child_path [OF path])
    moreover have "handle_child flt True xo yo e' (shift_bounds dx dy b)
                 = Inr (shift_bounds dx dy r, e')"
      using path tg m' merge_bounds_shift [OF mb, of dx dy] r
      by (simp add: handle_child_path del: merge_bounds.simps)
    ultimately show ?thesis
      using e r tg sf' sf by blast
  next
    case circle
    from m [unfolded handle_child_circle [OF circle] if_True]
    obtain w where w: "handle_circle flt e True xo yo = Inr w"
      and 1: "(case w of (pos, element') \<Rightarrow>
                and_then (case pos of None \<Rightarrow> Inl AttributeError
                          | Some point \<Rightarrow> Inr (update_bounds b point))
                  (\<lambda>bounds'. Inr (bounds', element')))
              = Inr (r, e1)"
      by (rule and_then_InrE)
    obtain pos e2 where w2: "w = (pos, e2)" by (cases w)
    from handle_circle_round_trip [OF w [unfolded w2], of dx dy] obtain p e' where
      e: "e2 = e" and pos: "pos = Some p" and t: "handle_circle flt e False dx dy = Inr (None, e')"
      and tg: "tag e' = tag e" and sf': "strip_free e' = strip_free e"
      and m': "handle_circle flt e' True xo yo = Inr (Some (Complex (Re p + dx) (Im p + dy)), e')"
      by blast
    from 1 w2 pos have r: "r = update_bounds b p" "e2 = e1"
      by simp_all
    have "handle_child flt False dx dy e b0 = Inr (b0, e')" for b0
      using t by (simp add: handle_child_circle [OF circle])
    moreover have "handle_child flt True xo yo e' (shift_bounds dx dy b)
                 = Inr (shift_bounds dx dy r, e')"
      using circle tg m' r update_bounds_shift [of dx dy b p]
      by (simp add: handle_child_circle)
    ultimately show ?thesis
      using e r tg sf' sf by blast
  qed
qed


lemma walk_loop_Nil: "walk_loop flt bm xo yo 0 [] b = Inr (b, [])"
  by (simp add: walk_loop_done)

lemma walk_loop_round_trip:
  assumes "\<forall>c \<in> set cs. tag c = ''g'' \<longrightarrow> round_trip flt dx dy c"
    and "\<forall>c \<in> set cs. tag c \<notin> set strip_tags \<and> strip_free c"
    and "walk_loop flt True xo yo 0 cs b = Inr (r, cs1)"
  shows "cs1 = cs \<and>
         (\<exists>cs'. (\<forall>b0. walk_loop flt False dx dy 0 cs b0 = Inr (b0, cs'))
            \<and> (\<forall>c \<in> set cs'. tag c \<notin> set strip_tags \<and> strip_free c)
            \<and> walk_loop flt True xo yo 0 cs' (shift_bounds dx dy b)
                 = Inr (shift_bounds dx dy r, cs'))"
  using assms
proof (induction cs arbitrary: b r cs1)
  case Nil
  then show ?case
    by (simp add: walk_loop_Nil)
next
  case (Cons e es)
  have ih_g: "\<forall>c \<in> set es. tag c = ''g'' \<longrightarrow> round_trip flt dx dy c"
    and ih_s: "\<forall>c \<in> set es. tag c \<notin> set strip_tags \<and> strip_free c"
    and ns: "tag e \<notin> set strip_tags" and sf: "strip_free e"
    using Cons.prems(1,2) by simp_all
  show ?case
  proof (cases e rule: tag_cases)
    case ignore
    from Cons.prems(3) [unfolded walk_loop_Cons_ignore [OF ignore]]
    obtain w where w: "walk_loop flt True xo yo 0 es b = Inr w"
      and 1: "(case w of (b', es') \<Rightarrow> (Inr (b', e # es') :: error + bounds \<times> element list))
                = Inr (r, cs1)"
      by (rule and_then_InrE)
    obtain r2 es1 where w2: "w = (r2, es1)" by (cases w)
    from 1 w2 have r: "r2 = r" "cs1 = e # es1" by simp_all
    from Cons.IH [OF ih_g ih_s w [unfolded w2]] obtain es' where
      es: "es1 = es" and t: "\<And>b0. walk_loop flt False dx dy 0 es b0 = Inr (b0, es')"
      and s': "\<forall>c \<in> set es'. tag c \<notin> set strip_tags \<and> strip_free c"
      and m': "walk_loop flt True xo yo 0 es' (shift_bounds dx dy b)
                 = Inr (shift_bounds dx dy r2, es')"
      by blast
    have "walk_loop flt False dx dy 0 (e # es) b0 = Inr (b0, e # es')" for b0
      by (simp add: walk_loop_Cons_ignore [OF ignore] t)
    moreover have "walk_loop flt True xo yo 0 (e # es') (shift_bounds dx dy b)
                 = Inr (shift_bounds dx dy r, e # es')"
      by (simp add: walk_loop_Cons_ignore [OF ignore] m' r)
    moreover have "\<forall>c \<in> set (e # es'). tag c \<notin> set strip_tags \<and> strip_free c"
      using s' ns sf by simp
    ultimately show ?thesis
      using r es by blast
  next
    case strip
    with ns show ?thesis by simp
  next
    case handled
    from Cons.prems(3) [unfolded walk_loop_Cons_handled [OF handled]]
    obtain h where h: "handle_child flt True xo yo e b = Inr h"
      and 1: "(case h of (b1, e') \<Rightarrow>
                 and_then (walk_loop flt True xo yo 0 es b1)
                   (\<lambda>(b', es'). Inr (b', e' # es'))) = Inr (r, cs1)"
      by (rule and_then_InrE)
    obtain b1 e1 where h2: "h = (b1, e1)" by (cases h)
    from 1 [unfolded h2 prod.case]
    obtain w where w: "walk_loop flt True xo yo 0 es b1 = Inr w"
      and 2: "(case w of (b', es') \<Rightarrow> (Inr (b', e1 # es') :: error + bounds \<times> element list))
                = Inr (r, cs1)"
      by (rule and_then_InrE)
    obtain r2 es1 where w2: "w = (r2, es1)" by (cases w)
    from 2 w2 have r: "r2 = r" "cs1 = e1 # es1" by simp_all
    have g: "tag e = ''g'' \<Longrightarrow> round_trip flt dx dy e"
      using Cons.prems(1) by simp
    from handle_child_round_trip [OF handled g sf h [unfolded h2]] obtain e' where
      e: "e1 = e" and te: "\<And>b0. handle_child flt False dx dy e b0 = Inr (b0, e')"
      and tg: "tag e' = tag e" and sfe: "strip_free e'"
      and me: "handle_child flt True xo yo e' (shift_bounds dx dy b)
                 = Inr (shift_bounds dx dy b1, e')"
      by blast
    from Cons.IH [OF ih_g ih_s w [unfolded w2]] obtain es' where
      es: "es1 = es" and t: "\<And>b0. walk_loop flt False dx dy 0 es b0 = Inr (b0, es')"
      and s': "\<forall>c \<in> set es'. tag c \<notin> set strip_tags \<and> strip_free c"
      and m': "walk_loop flt True xo yo 0 es' (shift_bounds dx dy b1)
                 = Inr (shift_bounds dx dy r2, es')"
      by blast
    have handled': "tag e' \<in> {''g'', ''path'', ''circle''}"
      using handled tg by simp
    have "walk_loop flt False dx dy 0 (e # es) b0 = Inr (b0, e' # es')" for b0
      by (simp add: walk_loop_Cons_handled [OF handled] te t)
    moreover have "walk_loop flt True xo yo 0 (e' # es') (shift_bounds dx dy b)
                 = Inr (shift_bounds dx dy r, e' # es')"
      by (simp add: walk_loop_Cons_handled [OF handled'] me m' r)
    moreover have "\<forall>c \<in> set (e' # es'). tag c \<notin> set strip_tags \<and> strip_free c"
      using s' ns sfe tg by simp
    ultimately show ?thesis
      using r e es by blast
  next
    case unknown
    with Cons.prems(3) show ?thesis
      by (simp add: walk_loop_Cons_unknown)
  qed
qed

lemma round_trip_strip_free: "strip_free g \<Longrightarrow> round_trip flt dx dy g"
proof (induction g)
  case (Element t a cs)
  have ih: "\<forall>c \<in> set cs. tag c = ''g'' \<longrightarrow> round_trip flt dx dy c"
    using Element by simp
  have sf: "\<forall>c \<in> set cs. tag c \<notin> set strip_tags \<and> strip_free c"
    using Element.prems by simp
  show ?case
    unfolding round_trip_def
  proof (intro allI impI)
    fix box g1 xo yo
    assume "walk_group flt (Element t a cs) True xo yo = Inr (box, g1)"
    from this [unfolded walk_group.simps]
    obtain w where w: "walk_loop flt True xo yo 0 cs no_bounds = Inr w"
      and 1: "(case w of (bounds, cs') \<Rightarrow>
                (Inr (bounds, Element t a cs') :: error + bounds \<times> element)) = Inr (box, g1)"
      by (rule and_then_InrE)
    obtain r cs1 where w2: "w = (r, cs1)" by (cases w)
    from 1 w2 have r: "r = box" "g1 = Element t a cs1" by simp_all
    from walk_loop_round_trip [OF ih sf w [unfolded w2]] obtain cs' where
      c: "cs1 = cs" and t: "\<And>b0. walk_loop flt False dx dy 0 cs b0 = Inr (b0, cs')"
      and s': "\<forall>c \<in> set cs'. tag c \<notin> set strip_tags \<and> strip_free c"
      and m': "walk_loop flt True xo yo 0 cs' (shift_bounds dx dy no_bounds)
                 = Inr (shift_bounds dx dy r, cs')"
      by blast
    have "walk_group flt (Element t a cs) False dx dy = Inr (no_bounds, Element t a cs')"
      by (simp add: t)
    moreover have "walk_group flt (Element t a cs') True xo yo
                     = Inr (shift_bounds dx dy box, Element t a cs')"
      using m' r by simp
    moreover have "strip_free (Element t a cs')"
      using s' by simp
    ultimately show "g1 = Element t a cs \<and>
        (\<exists>g'. walk_group flt (Element t a cs) False dx dy = Inr (no_bounds, g')
           \<and> tag g' = tag (Element t a cs) \<and> strip_free g'
           \<and> walk_group flt g' True xo yo = Inr (shift_bounds dx dy box, g'))"
      using r c by (intro conjI exI [of _ "Element t a cs'"]) simp_all
  qed
qed

text \<open>
  On a group none of whose descendants has a tag of the strip set, the round trip holds in
  the model, with its exact sums and with descriptions read back as they were written: when
  the group measures as a box, the bounds-mode walk has left it as it was, the walk with
  offsets succeeds, and the group it leaves measures as the box moved by the offsets.
\<close>

lemma walk_group_round_trip:
  assumes "strip_free g" and "walk_group flt g True xo yo = Inr (box, g1)"
  shows "g1 = g \<and>
         (\<exists>g'. walk_group flt g False dx dy = Inr (no_bounds, g')
            \<and> walk_group flt g' True xo yo = Inr (shift_bounds dx dy box, g'))"
  using round_trip_strip_free [OF assms(1), of flt dx dy] assms(2)
  unfolding round_trip_def by blast


text \<open>
  Claim C4. The claim: transforming a tree by an offset and measuring it again gives the
  measured box of the original moved by the offset. The group \<open>text_group\<close> holds a text, a
  line from (0, 0) to (100, 50) and the path of claim C6. Both walks remove the text and pass
  over the line that follows it. The original measures as (0, 0, 10, 10); transformed by
  (1, 2) the line stays and the other path moves; measured again the result is
  (0, 0, 100, 50), where the claim wants (1, 2, 11, 12). All coordinates here are small
  integers, which sums and the written description keep as they are. Without an element of
  the strip set the round trip holds in the model (\<open>walk_group_round_trip\<close>).
\<close>

theorem C4_round_trip_fails_after_strip:
  "walk_group decimal_float text_group True 0 0
     = Inr ((Some 0, Some 0, Some 10, Some 10),
            Element ''g'' [] [path_element diagonal_path, path_element corner_path])
   \<and> walk_group decimal_float text_group False 1 2
     = Inr (no_bounds,
            Element ''g'' [] [path_element diagonal_path, path_element corner_path_moved])
   \<and> walk_group decimal_float
       (Element ''g'' [] [path_element diagonal_path, path_element corner_path_moved]) True 0 0
     = Inr ((Some 0, Some 0, Some 100, Some 50),
            Element ''g'' [] [path_element diagonal_path, path_element corner_path_moved])
   \<and> shift_bounds 1 2 (Some 0, Some 0, Some 10, Some 10) = (Some 1, Some 2, Some 11, Some 12)"
  by (simp add: walk_eval text_group_def path_element_def diagonal_path_def corner_path_def
        corner_path_moved_def shift_bounds_def del: and_then_Inr and_then_Inl)

end
